theory Spec2Isabelle
  imports Main "HOL-Library.Word"
begin

unbundle bit_operations_syntax

section \<open>Data model of security/capsicum.c\<close>

type_synonym u64 = "64 word"
type_synonym u32 = "32 word"

text \<open>Error numbers the file returns (negated in C).\<close>

datatype errno = EBADF | ENOMEM | EINVAL | ECAPMODE | ENOTCAPABLE | ENOSYS | EFAULT | EMFILE

text \<open>
  A \<^verbatim>\<open>struct file *\<close>: the null pointer, the address of a file object, or an
  \<^verbatim>\<open>ERR_PTR\<close> carrying an error number.
\<close>

datatype fileptr = NULL | Ptr nat | ERR_PTR errno

text \<open>
  Ways the kernel stops instead of returning: \<^verbatim>\<open>BUG_ON\<close>, \<^verbatim>\<open>panic\<close>, and
  the fault taken on dereferencing a pointer that addresses no file object.
\<close>

datatype halt = BUG | PANIC | OOPS

datatype 'a outcome = Ret 'a | Halt halt

text \<open>\<^verbatim>\<open>struct capsicum_capability\<close>.\<close>

record capsicum_capability =
  rights :: u64
  underlying :: fileptr

text \<open>
  The identity of a file's operations table: \<^verbatim>\<open>capsicum_is_cap\<close> compares
  \<^verbatim>\<open>file->f_op\<close> with the address of \<^verbatim>\<open>capsicum_file_ops\<close>.
\<close>

datatype f_op_table = capsicum_file_ops | other_file_ops

text \<open>
  The fields of \<^verbatim>\<open>struct file\<close> that capsicum.c reads and writes.
  \<^verbatim>\<open>private_data\<close> is \<open>None\<close> when it points to no capability structure
  (a null pointer, or one that was freed).
\<close>

record file_obj =
  f_op :: f_op_table
  private_data :: "capsicum_capability option"
  f_count :: nat

text \<open>
  \<^verbatim>\<open>struct capsicum_pending_syscall\<close>. \<open>fds\<close> and \<open>files\<close> are the two
  arrays of capacity \<open>fd_count\<close> (whether they live inline or in dynamic memory);
  only the first \<open>next_free\<close> slots are meaningful.
\<close>

record capsicum_pending_syscall =
  fds :: "u32 list"
  files :: "fileptr list"
  next_free :: int
  fd_count :: int
  next_new_cap :: fileptr
  new_cap_rights :: u64
  task :: nat

datatype seccomp_mode_t =
  SECCOMP_MODE_DISABLED | SECCOMP_MODE_STRICT | SECCOMP_MODE_FILTER | SECCOMP_MODE_CAPSICUM

text \<open>
  The kernel state seen by the current thread: the file objects (an address is an
  index into \<open>heap\<close>; a new file object is appended), the descriptor table of
  \<^verbatim>\<open>current->files\<close>, the slate hanging off \<^verbatim>\<open>current->cred->security\<close>,
  the identity of \<^verbatim>\<open>current\<close>, its seccomp flags, and \<^verbatim>\<open>capsicum_enabled\<close>.
\<close>

record kstate =
  heap :: "file_obj list"
  fdtable :: "u32 \<rightharpoonup> nat"
  security :: "capsicum_pending_syscall option"
  current :: nat
  tif_seccomp :: bool
  seccomp_mode :: seccomp_mode_t
  capsicum_enabled :: bool

text \<open>
  What the host kernel answers to the calls capsicum.c makes into it; each may fail.
  \<open>prepare_creds_res\<close>: \<open>None\<close> when \<^verbatim>\<open>prepare_creds\<close> fails, otherwise the
  \<^verbatim>\<open>security\<close> field of the new credentials. \<open>kmalloc_res\<close>: \<open>None\<close> when
  \<^verbatim>\<open>kmalloc\<close> of a slate fails, otherwise the (uninitialised) contents of its two
  inline arrays. \<open>anon_inode_err\<close>: \<open>None\<close> when \<^verbatim>\<open>anon_inode_getfile\<close> succeeds.
  \<open>get_unused_fd_res\<close>: the descriptor reserved by \<^verbatim>\<open>get_unused_fd\<close>, or its
  error. \<open>put_user_ok\<close>: whether the user pointer given to \<^verbatim>\<open>put_user\<close> can be
  written.
\<close>

record host =
  prepare_creds_res :: "capsicum_pending_syscall option option"
  kmalloc_res :: "(u32 list \<times> fileptr list) option"
  kzalloc_ok :: bool
  anon_inode_err :: "errno option"
  get_unused_fd_res :: "errno + u32"
  put_user_ok :: bool

section \<open>Helpers\<close>

text \<open>Dereferencing a file pointer; \<open>None\<close> when it addresses no file object.\<close>

definition deref :: "file_obj list \<Rightarrow> fileptr \<Rightarrow> file_obj option" where
  "deref h p = (case p of Ptr a \<Rightarrow> (if a < length h then Some (h ! a) else None) | _ \<Rightarrow> None)"

text \<open>\<^verbatim>\<open>fcheck(fd)\<close> / \<^verbatim>\<open>fcheck_files(current->files, fd)\<close>.\<close>

definition fcheck :: "kstate \<Rightarrow> u32 \<Rightarrow> fileptr" where
  "fcheck s fd = (case fdtable s fd of None \<Rightarrow> NULL | Some a \<Rightarrow> Ptr a)"

definition capsicum_in_cap_mode :: "kstate \<Rightarrow> bool" where
  "capsicum_in_cap_mode s = (tif_seccomp s \<and> seccomp_mode s = SECCOMP_MODE_CAPSICUM)"

definition capsicum_is_cap :: "file_obj \<Rightarrow> bool" where
  "capsicum_is_cap f = (f_op f = capsicum_file_ops)"

definition capsicum_get_pending_syscall :: "kstate \<Rightarrow> capsicum_pending_syscall option" where
  "capsicum_get_pending_syscall s =
     (case security s of
        None \<Rightarrow> None
      | Some pending \<Rightarrow> if task pending = current s then Some pending else None)"

text \<open>
  \<^verbatim>\<open>capsicum_unwrap(capf, rights)\<close>: the underlying pointer (\<open>NULL\<close> when
  \<open>capf\<close> is not a capability) and the value stored through \<^verbatim>\<open>rights\<close>
  (\<open>None\<close> when nothing is stored). A caller that passes a null \<^verbatim>\<open>rights\<close>
  ignores the second component.
\<close>

definition capsicum_unwrap :: "file_obj list \<Rightarrow> fileptr \<Rightarrow> (fileptr \<times> u64 option) outcome" where
  "capsicum_unwrap h capf =
     (case deref h capf of
        None \<Rightarrow> Halt OOPS
      | Some f \<Rightarrow>
          if \<not> capsicum_is_cap f then Ret (NULL, None)
          else (case private_data f of
                  None \<Rightarrow> Halt OOPS
                | Some cap \<Rightarrow> Ret (underlying cap, Some (rights cap))))"

text \<open>
  \<^verbatim>\<open>capsicum_cap_alloc\<close>: \<^verbatim>\<open>kzalloc\<close> of the capability, then
  \<^verbatim>\<open>anon_inode_getfile\<close>; the new file object takes the next address.
\<close>

definition capsicum_cap_alloc :: "host \<Rightarrow> file_obj list \<Rightarrow> fileptr \<times> file_obj list" where
  "capsicum_cap_alloc env h =
     (if \<not> kzalloc_ok env then (ERR_PTR ENOMEM, h)
      else (case anon_inode_err env of
              Some e \<Rightarrow> (ERR_PTR e, h)
            | None \<Rightarrow>
                (Ptr (length h),
                 h @ [\<lparr>f_op = capsicum_file_ops,
                        private_data = Some \<lparr>rights = 0, underlying = NULL\<rparr>,
                        f_count = 1\<rparr>])))"

text \<open>\<^verbatim>\<open>capsicum_cap_set\<close>, with its two \<^verbatim>\<open>BUG_ON\<close>s.\<close>

definition capsicum_cap_set :: "file_obj list \<Rightarrow> fileptr \<Rightarrow> fileptr \<Rightarrow> u64 \<Rightarrow> file_obj list outcome" where
  "capsicum_cap_set h capf und r =
     (case capf of
        Ptr a \<Rightarrow>
          (if a < length h then
             (if \<not> capsicum_is_cap (h ! a) then Halt BUG
              else (case private_data (h ! a) of
                      None \<Rightarrow> Halt BUG
                    | Some cap \<Rightarrow>
                        Ret (h[a := (h ! a)\<lparr>private_data :=
                               Some (cap\<lparr>underlying := und, rights := r\<rparr>)\<rparr>])))
           else Halt OOPS)
      | _ \<Rightarrow> Halt OOPS)"

section \<open>The rights check of the interceptor\<close>

text \<open>\<^verbatim>\<open>AT_FDCWD\<close> is -100, compared as an \<^verbatim>\<open>unsigned long\<close> (64 bits).\<close>

definition AT_FDCWD :: u64 where
  "AT_FDCWD = - 100"

text \<open>
  \<^verbatim>\<open>capsicum_require_rights(pending, fd, required_rights)\<close>. \<open>fd\<close> is an
  \<^verbatim>\<open>unsigned long\<close>; \<^verbatim>\<open>fcheck\<close> and the slate take it as an \<^verbatim>\<open>unsigned int\<close>.
  The result is the returned error (or \<open>Inr ()\<close> for 0) and the slate as left behind.
  The slate is a value here, so \<^verbatim>\<open>BUG_ON(!pending)\<close> cannot fire. Slot
  \<open>next_free\<close> lies within the arrays because \<open>next_free < fd_count\<close> is tested
  first.
\<close>

definition capsicum_require_rights ::
  "kstate \<Rightarrow> capsicum_pending_syscall \<Rightarrow> u64 \<Rightarrow> u64 \<Rightarrow>
   ((errno + unit) \<times> capsicum_pending_syscall) outcome" where
  "capsicum_require_rights s pending fd required_rights =
     (if fd = AT_FDCWD then Ret (Inl ECAPMODE, pending)
      else
        let file = fcheck s (ucast fd) in
        if file = NULL then Ret (Inl EBADF, pending)
        else
          (case capsicum_unwrap (heap s) file of
             Halt x \<Rightarrow> Halt x
           | Ret (_, r) \<Rightarrow>
               let actual_rights = (case r of None \<Rightarrow> - 1 | Some v \<Rightarrow> v) in
               if next_free pending \<ge> fd_count pending then Ret (Inl ENOMEM, pending)
               else
                 let i = nat (next_free pending);
                     pending' = pending\<lparr>fds := (fds pending)[i := ucast fd],
                                        files := (files pending)[i := file],
                                        next_free := next_free pending + 1\<rparr>
                 in if actual_rights AND required_rights = required_rights
                    then Ret (Inr (), pending')
                    else Ret (Inl ENOTCAPABLE, pending')))"

section \<open>The pending-syscall slate\<close>

text \<open>
  A \<^verbatim>\<open>kmalloc\<close>ed array of six slots holds whatever the memory held; \<open>array6\<close>
  cuts the host's answer to that size.
\<close>

definition array6 :: "'a list \<Rightarrow> 'a \<Rightarrow> 'a list" where
  "array6 xs d = take 6 (xs @ replicate 6 d)"

text \<open>
  \<^verbatim>\<open>capsicum_alloc_pending_syscall\<close>. When the credentials carry no slate of the
  current thread, new credentials are prepared; a slate found in them is re-used,
  otherwise one is allocated with its six inline slots. The new slate is committed
  as \<^verbatim>\<open>current->cred->security\<close>.
\<close>

definition capsicum_alloc_pending_syscall ::
  "host \<Rightarrow> kstate \<Rightarrow> (errno + capsicum_pending_syscall) \<times> kstate" where
  "capsicum_alloc_pending_syscall env s =
     (case capsicum_get_pending_syscall s of
        Some pending \<Rightarrow> (Inr pending, s)
      | None \<Rightarrow>
          (case prepare_creds_res env of
             None \<Rightarrow> (Inl ENOMEM, s)
           | Some sec \<Rightarrow>
               (case (case sec of
                        Some p \<Rightarrow> Some p
                      | None \<Rightarrow>
                          (case kmalloc_res env of
                             None \<Rightarrow> None
                           | Some (gfds, gfiles) \<Rightarrow>
                               Some \<lparr>fds = array6 gfds 0, files = array6 gfiles NULL,
                                     next_free = 0, fd_count = 6, next_new_cap = NULL,
                                     new_cap_rights = 0, task = 0\<rparr>)) of
                  None \<Rightarrow> (Inl ENOMEM, s)
                | Some p \<Rightarrow>
                    let pending = p\<lparr>new_cap_rights := - 1, next_free := 0,
                                     next_new_cap := NULL, task := current s\<rparr>
                    in (Inr pending, s\<lparr>security := Some pending\<rparr>))))"

section \<open>The syscall interceptor\<close>

text \<open>
  The syscall table of \<^verbatim>\<open>capsicum_syscall_table.h\<close> is a parameter: for an
  architecture, a syscall number and the raw arguments it gives the
  \<open>(fd, required_rights)\<close> pairs to check, or \<open>None\<close> for a syscall that is
  unknown or not allowed in capability mode.
\<close>

type_synonym syscall_table = "int \<Rightarrow> int \<Rightarrow> u64 list \<Rightarrow> (u64 \<times> u64) list option"

text \<open>
  Modelled from the spec: \<^verbatim>\<open>capsicum_run_syscall_table\<close> is defined in
  \<^verbatim>\<open>capsicum_syscall_table.h\<close>, which is not among the sources. Section 4.3 of
  the spec: each pair of a permitted syscall goes through the rights check, in
  order, and the first failure is the result; a syscall with no fd argument is
  allowed; an unknown or disallowed one fails \<open>CAPMODE\<close>.
\<close>

fun check_fd_args ::
  "kstate \<Rightarrow> capsicum_pending_syscall \<Rightarrow> (u64 \<times> u64) list \<Rightarrow>
   ((errno + unit) \<times> capsicum_pending_syscall) outcome" where
  "check_fd_args s pending [] = Ret (Inr (), pending)"
| "check_fd_args s pending ((fd, required_rights) # rest) =
     (case capsicum_require_rights s pending fd required_rights of
        Halt x \<Rightarrow> Halt x
      | Ret (Inl e, pending') \<Rightarrow> Ret (Inl e, pending')
      | Ret (Inr u, pending') \<Rightarrow> check_fd_args s pending' rest)"

definition capsicum_run_syscall_table ::
  "syscall_table \<Rightarrow> kstate \<Rightarrow> capsicum_pending_syscall \<Rightarrow> int \<Rightarrow> int \<Rightarrow> u64 list \<Rightarrow>
   ((errno + unit) \<times> capsicum_pending_syscall) outcome" where
  "capsicum_run_syscall_table table s pending arch callnr args =
     (case table arch callnr args of
        None \<Rightarrow> Ret (Inl ECAPMODE, pending)
      | Some pairs \<Rightarrow> check_fd_args s pending pairs)"

text \<open>\<^verbatim>\<open>__NR_openat\<close> (its x86-64 value; nothing below depends on the number).\<close>

definition NR_openat :: int where
  "NR_openat = 257"

text \<open>
  \<^verbatim>\<open>capsicum_intercept_syscall(arch, callnr, args)\<close>. The slate is an object
  reached from the credentials and updated in place, so every return path leaves
  the slate as last written in \<open>security\<close>. \<^verbatim>\<open>pending->files[0]\<close> is read
  whatever \<open>next_free\<close> is; \<^verbatim>\<open>BUG_ON(!pending->files[0])\<close> stands behind an
  unwrap that has already dereferenced that pointer.
\<close>

definition capsicum_intercept_syscall ::
  "syscall_table \<Rightarrow> host \<Rightarrow> kstate \<Rightarrow> int \<Rightarrow> int \<Rightarrow> u64 list \<Rightarrow>
   ((errno + unit) \<times> kstate) outcome" where
  "capsicum_intercept_syscall table env s arch callnr args =
     (if \<not> capsicum_enabled s then Ret (Inr (), s)
      else
        (case capsicum_alloc_pending_syscall env s of
           (Inl e, s1) \<Rightarrow> Ret (Inl e, s1)
         | (Inr pending0, s1) \<Rightarrow>
             let pending1 = pending0\<lparr>next_free := 0, new_cap_rights := 0\<rparr> in
             (case capsicum_run_syscall_table table s1 pending1 arch callnr args of
                Halt x \<Rightarrow> Halt x
              | Ret (result, pending2) \<Rightarrow>
                  if result = Inr () \<and> callnr = NR_openat then
                    (case files pending2 of
                       [] \<Rightarrow> Halt OOPS
                     | file0 # _ \<Rightarrow>
                         (case capsicum_unwrap (heap s1) file0 of
                            Halt x \<Rightarrow> Halt x
                          | Ret (und, r) \<Rightarrow>
                              if und \<noteq> NULL then
                                let existing_rights = (case r of None \<Rightarrow> - 1 | Some v \<Rightarrow> v) in
                                if next_new_cap pending2 = NULL then
                                  (case capsicum_cap_alloc env (heap s1) of
                                     (ERR_PTR e, h') \<Rightarrow>
                                       Ret (Inl e,
                                            s1\<lparr>heap := h',
                                               security := Some (pending2\<lparr>next_new_cap := ERR_PTR e\<rparr>)\<rparr>)
                                   | (capf, h') \<Rightarrow>
                                       Ret (result,
                                            s1\<lparr>heap := h',
                                               security := Some (pending2\<lparr>next_new_cap := capf,
                                                 new_cap_rights := existing_rights\<rparr>)\<rparr>))
                                else
                                  Ret (result,
                                       s1\<lparr>security := Some (pending2\<lparr>new_cap_rights := existing_rights\<rparr>)\<rparr>)
                              else Ret (result, s1\<lparr>security := Some pending2\<rparr>)))
                  else Ret (result, s1\<lparr>security := Some pending2\<rparr>))))"

section \<open>The security hooks\<close>

text \<open>
  The loop of \<^verbatim>\<open>capsicum_file_lookup\<close> over the slots \<open>0 .. next_free - 1\<close>,
  as a recursion over those slots: \<open>None\<close> is the early \<^verbatim>\<open>return NULL\<close>,
  \<open>Some found_fd\<close> the flag the loop ends with. \<open>next_free\<close> never exceeds
  the capacity of the arrays (the rights check refuses to record beyond it).
\<close>

definition slate_entries :: "capsicum_pending_syscall \<Rightarrow> (u32 \<times> fileptr) list" where
  "slate_entries pending = take (nat (next_free pending)) (zip (fds pending) (files pending))"

fun lookup_scan :: "(u32 \<times> fileptr) list \<Rightarrow> fileptr \<Rightarrow> u32 \<Rightarrow> bool \<Rightarrow> bool option" where
  "lookup_scan [] file fd found_fd = Some found_fd"
| "lookup_scan ((f, fl) # es) file fd found_fd =
     (if f = fd then
        (if fl \<noteq> file then None else lookup_scan es file fd True)
      else lookup_scan es file fd found_fd)"

text \<open>\<^verbatim>\<open>capsicum_file_lookup(file, fd)\<close>.\<close>

definition capsicum_file_lookup :: "kstate \<Rightarrow> fileptr \<Rightarrow> u32 \<Rightarrow> fileptr outcome" where
  "capsicum_file_lookup s file fd =
     (case capsicum_unwrap (heap s) file of
        Halt x \<Rightarrow> Halt x
      | Ret (und, _) \<Rightarrow>
          if und = NULL then Ret file
          else
            (case capsicum_get_pending_syscall s of
               None \<Rightarrow> Ret und
             | Some pending \<Rightarrow>
                 if capsicum_in_cap_mode s then
                   (case lookup_scan (slate_entries pending) file fd False of
                      None \<Rightarrow> Ret NULL
                    | Some found_fd \<Rightarrow> if \<not> found_fd then Halt BUG else Ret und)
                 else Ret und))"

text \<open>
  \<^verbatim>\<open>capsicum_file_install(file, fd)\<close>: the file to store in the descriptor table,
  and the state with the wrapper initialised and the slate cleared when the
  pre-allocated wrapper is used.
\<close>

definition capsicum_file_install :: "kstate \<Rightarrow> fileptr \<Rightarrow> u32 \<Rightarrow> (fileptr \<times> kstate) outcome" where
  "capsicum_file_install s file fd =
     (case deref (heap s) file of
        None \<Rightarrow> Halt OOPS
      | Some f \<Rightarrow>
          if capsicum_is_cap f then Ret (file, s)
          else
            (case capsicum_get_pending_syscall s of
               None \<Rightarrow> Ret (file, s)
             | Some pending \<Rightarrow>
                 if new_cap_rights pending = - 1 \<or> next_new_cap pending = NULL then Ret (file, s)
                 else
                   let capf = next_new_cap pending in
                   (case capsicum_cap_set (heap s) capf file (new_cap_rights pending) of
                      Halt x \<Rightarrow> Halt x
                    | Ret h' \<Rightarrow>
                        Ret (capf,
                             s\<lparr>heap := h',
                               security := Some (pending\<lparr>next_new_cap := NULL,
                                                          new_cap_rights := 0\<rparr>)\<rparr>))))"

text \<open>
  \<^verbatim>\<open>capsicum_path_lookup(dentry, name)\<close>. \<open>name\<close> is the string without its
  terminating NUL; \<open>char_at\<close> reads the NUL at its end. The C conjunction
  evaluates left to right and stops at the first false test, so no character
  behind the NUL is read.
\<close>

definition char_at :: "string \<Rightarrow> nat \<Rightarrow> char" where
  "char_at name i = (if i < length name then name ! i else CHR 0x00)"

definition capsicum_path_lookup :: "kstate \<Rightarrow> string \<Rightarrow> errno + unit" where
  "capsicum_path_lookup s name =
     (if \<not> capsicum_in_cap_mode s then Inr ()
      else if char_at name 0 = CHR ''.'' \<and> char_at name 1 = CHR ''.'' \<and>
              (char_at name 2 = CHR 0x00 \<or> char_at name 2 = CHR ''/'') then Inl ECAPMODE
      else if char_at name 0 = CHR ''/'' then Inl ECAPMODE
      else Inr ())"

section \<open>Installing a capability: \<^verbatim>\<open>cap_new\<close>\<close>

text \<open>Reference counting of the host: \<^verbatim>\<open>get_file\<close>, \<^verbatim>\<open>fput\<close> and
  \<^verbatim>\<open>atomic_long_inc_not_zero(&file->f_count)\<close> (\<open>None\<close> when the count is zero).\<close>

definition get_file :: "file_obj list \<Rightarrow> fileptr \<Rightarrow> file_obj list outcome" where
  "get_file h p =
     (case deref h p of
        None \<Rightarrow> Halt OOPS
      | Some f \<Rightarrow> (case p of Ptr a \<Rightarrow> Ret (h[a := f\<lparr>f_count := f_count f + 1\<rparr>]) | _ \<Rightarrow> Halt OOPS))"

definition fput :: "file_obj list \<Rightarrow> fileptr \<Rightarrow> file_obj list outcome" where
  "fput h p =
     (case deref h p of
        None \<Rightarrow> Halt OOPS
      | Some f \<Rightarrow> (case p of Ptr a \<Rightarrow> Ret (h[a := f\<lparr>f_count := f_count f - 1\<rparr>]) | _ \<Rightarrow> Halt OOPS))"

definition inc_not_zero :: "file_obj list \<Rightarrow> fileptr \<Rightarrow> file_obj list option outcome" where
  "inc_not_zero h p =
     (case deref h p of
        None \<Rightarrow> Halt OOPS
      | Some f \<Rightarrow> if f_count f = 0 then Ret None
                  else (case get_file h p of Halt x \<Rightarrow> Halt x | Ret h' \<Rightarrow> Ret (Some h')))"

text \<open>
  Modelled from the spec: \<^verbatim>\<open>fd_install\<close> belongs to the host's descriptor table,
  which is not among the sources. Section 4.5 of the spec: the install hook fires
  whenever a file is about to be deposited at a new fd, and what the hook returns
  is what the table stores.
\<close>

definition fd_install :: "kstate \<Rightarrow> u32 \<Rightarrow> fileptr \<Rightarrow> kstate outcome" where
  "fd_install s fd file =
     (case capsicum_file_install s file fd of
        Halt x \<Rightarrow> Halt x
      | Ret (Ptr a, s') \<Rightarrow> Ret (s'\<lparr>fdtable := (fdtable s')(fd \<mapsto> a)\<rparr>)
      | Ret (_, s') \<Rightarrow> Halt OOPS)"

text \<open>\<^verbatim>\<open>capsicum_install_fd(orig, rights)\<close>.\<close>

definition capsicum_install_fd ::
  "host \<Rightarrow> kstate \<Rightarrow> fileptr \<Rightarrow> u64 \<Rightarrow> ((errno + u32) \<times> kstate) outcome" where
  "capsicum_install_fd env s orig r =
     (case get_unused_fd_res env of
        Inl e \<Rightarrow> Ret (Inl e, s)
      | Inr fd \<Rightarrow>
          (case capsicum_cap_alloc env (heap s) of
             (ERR_PTR e, h1) \<Rightarrow> Ret (Inl e, s)
           | (file, h1) \<Rightarrow>
               (case deref h1 orig of
                  None \<Rightarrow> Halt OOPS
                | Some fo \<Rightarrow>
                    (case (if capsicum_is_cap fo then capsicum_unwrap h1 orig
                           else Ret (orig, None)) of
                       Halt x \<Rightarrow> Halt x
                     | Ret (orig', _) \<Rightarrow>
                         (case get_file h1 orig' of
                            Halt x \<Rightarrow> Halt x
                          | Ret h2 \<Rightarrow>
                              (case capsicum_cap_set h2 file orig' r of
                                 Halt x \<Rightarrow> Halt x
                               | Ret h3 \<Rightarrow>
                                   (case fd_install (s\<lparr>heap := h3\<rparr>) fd file of
                                      Halt x \<Rightarrow> Halt x
                                    | Ret s' \<Rightarrow> Ret (Inr fd, s'))))))))"

text \<open>\<^verbatim>\<open>do_sys_cap_new(orig_fd, new_rights)\<close>.\<close>

definition do_sys_cap_new ::
  "host \<Rightarrow> kstate \<Rightarrow> u32 \<Rightarrow> u64 \<Rightarrow> ((errno + u32) \<times> kstate) outcome" where
  "do_sys_cap_new env s orig_fd new_rights =
     (let file = fcheck s orig_fd in
      if file = NULL then Ret (Inl EBADF, s)
      else
        (case deref (heap s) file of
           None \<Rightarrow> Halt OOPS
         | Some f \<Rightarrow>
             (case (if capsicum_is_cap f then capsicum_unwrap (heap s) file
                    else Ret (file, None)) of
                Halt x \<Rightarrow> Halt x
              | Ret (file', r) \<Rightarrow>
                  if file' = NULL then Ret (Inl EBADF, s)
                  else
                    let existing_rights = (case r of None \<Rightarrow> - 1 | Some v \<Rightarrow> v) in
                    (case inc_not_zero (heap s) file' of
                       Halt x \<Rightarrow> Halt x
                     | Ret None \<Rightarrow> Ret (Inl EBADF, s)
                     | Ret (Some h1) \<Rightarrow>
                         capsicum_install_fd env (s\<lparr>heap := h1\<rparr>) file'
                           (new_rights AND existing_rights)))))"

text \<open>The system call \<^verbatim>\<open>cap_new\<close>.\<close>

definition sys_cap_new ::
  "host \<Rightarrow> kstate \<Rightarrow> u32 \<Rightarrow> u64 \<Rightarrow> ((errno + u32) \<times> kstate) outcome" where
  "sys_cap_new env s orig_fd new_rights =
     (if \<not> capsicum_enabled s then Ret (Inl ENOSYS, s)
      else do_sys_cap_new env s orig_fd new_rights)"

text \<open>
  The system call \<^verbatim>\<open>cap_getrights(fd, rightsp)\<close>: the return value, and what was
  stored at \<^verbatim>\<open>rightsp\<close> in user memory (\<open>None\<close> when nothing was stored).
  \<^verbatim>\<open>put_user\<close> stores nothing when the pointer faults.
\<close>

definition sys_cap_getrights ::
  "host \<Rightarrow> kstate \<Rightarrow> u32 \<Rightarrow> ((errno + unit) \<times> u64 option) outcome" where
  "sys_cap_getrights env s fd =
     (let file = fcheck s fd in
      if file = NULL then Ret (Inl EBADF, None)
      else
        (case deref (heap s) file of
           None \<Rightarrow> Halt OOPS
         | Some f \<Rightarrow>
             if \<not> capsicum_is_cap f then Ret (Inl EINVAL, None)
             else
               (case capsicum_unwrap (heap s) file of
                  Halt x \<Rightarrow> Halt x
                | Ret (_, r) \<Rightarrow>
                    let rights = (case r of None \<Rightarrow> - 1 | Some v \<Rightarrow> v) in
                    Ret (Inr (), if put_user_ok env then Some rights else None))))"

section \<open>The file operations of a capability\<close>

text \<open>\<^verbatim>\<open>capsicum_release(i, capf)\<close>; the capability structure is freed.\<close>

definition capsicum_release :: "file_obj list \<Rightarrow> fileptr \<Rightarrow> ((errno + unit) \<times> file_obj list) outcome" where
  "capsicum_release h capf =
     (case deref h capf of
        None \<Rightarrow> Halt OOPS
      | Some f \<Rightarrow>
          if \<not> capsicum_is_cap f then Ret (Inl EINVAL, h)
          else
            (case private_data f of
               None \<Rightarrow> Halt BUG
             | Some cap \<Rightarrow>
                 (case (if underlying cap \<noteq> NULL then fput h (underlying cap) else Ret h) of
                    Halt x \<Rightarrow> Halt x
                  | Ret h1 \<Rightarrow>
                      (case capf of
                         Ptr a \<Rightarrow> Ret (Inr (), h1[a := (h1 ! a)\<lparr>private_data := None\<rparr>])
                       | _ \<Rightarrow> Halt OOPS))))"

text \<open>
  \<^verbatim>\<open>capsicum_show_fdinfo(m, capf)\<close>: the return value and the rights masks
  printed, one per \<^verbatim>\<open>rights:\<close> line written to the \<^verbatim>\<open>seq_file\<close>.
\<close>

definition capsicum_show_fdinfo :: "file_obj list \<Rightarrow> fileptr \<Rightarrow> ((errno + unit) \<times> u64 list) outcome" where
  "capsicum_show_fdinfo h capf =
     (case deref h capf of
        None \<Rightarrow> Halt OOPS
      | Some f \<Rightarrow>
          if \<not> capsicum_is_cap f then Ret (Inl EINVAL, [])
          else
            (case private_data f of
               None \<Rightarrow> Halt BUG
             | Some cap \<Rightarrow> Ret (Inr (), [rights cap])))"

text \<open>The members of \<^verbatim>\<open>struct file_operations\<close> that the table initialises.\<close>

datatype file_operation =
  llseek_op | read_op | write_op | aio_read_op | aio_write_op | iterate_op | poll_op
  | unlocked_ioctl_op | compat_ioctl_op | mmap_op | open_op | flush_op | release_op
  | fsync_op | aio_fsync_op | fasync_op | lock_op | sendpage_op | get_unmapped_area_op
  | check_flags_op | flock_op | splice_write_op | splice_read_op | setlease_op
  | fallocate_op | show_fdinfo_op

datatype handler = panic_ptr | null_handler | release_handler | show_fdinfo_handler

text \<open>The initialiser of \<^verbatim>\<open>capsicum_file_ops\<close>, member by member.\<close>

fun capsicum_file_ops_member :: "file_operation \<Rightarrow> handler" where
  "capsicum_file_ops_member llseek_op = panic_ptr"
| "capsicum_file_ops_member read_op = panic_ptr"
| "capsicum_file_ops_member write_op = panic_ptr"
| "capsicum_file_ops_member aio_read_op = panic_ptr"
| "capsicum_file_ops_member aio_write_op = panic_ptr"
| "capsicum_file_ops_member iterate_op = panic_ptr"
| "capsicum_file_ops_member poll_op = panic_ptr"
| "capsicum_file_ops_member unlocked_ioctl_op = panic_ptr"
| "capsicum_file_ops_member compat_ioctl_op = panic_ptr"
| "capsicum_file_ops_member mmap_op = panic_ptr"
| "capsicum_file_ops_member open_op = panic_ptr"
| "capsicum_file_ops_member flush_op = null_handler"
| "capsicum_file_ops_member release_op = release_handler"
| "capsicum_file_ops_member fsync_op = panic_ptr"
| "capsicum_file_ops_member aio_fsync_op = panic_ptr"
| "capsicum_file_ops_member fasync_op = panic_ptr"
| "capsicum_file_ops_member lock_op = panic_ptr"
| "capsicum_file_ops_member sendpage_op = panic_ptr"
| "capsicum_file_ops_member get_unmapped_area_op = panic_ptr"
| "capsicum_file_ops_member check_flags_op = panic_ptr"
| "capsicum_file_ops_member flock_op = panic_ptr"
| "capsicum_file_ops_member splice_write_op = panic_ptr"
| "capsicum_file_ops_member splice_read_op = panic_ptr"
| "capsicum_file_ops_member setlease_op = panic_ptr"
| "capsicum_file_ops_member fallocate_op = panic_ptr"
| "capsicum_file_ops_member show_fdinfo_op = show_fdinfo_handler"

text \<open>
  What calling a member of the table on the wrapper \<open>capf\<close> does:
  \<^verbatim>\<open>capsicum_panic_not_unwrapped\<close> panics; a null member is not called (the source
  notes that \<^verbatim>\<open>flush\<close> is called on close only if implemented); the two
  remaining members run their functions.
\<close>

datatype op_result = Not_called | Returned "errno + unit" "u64 list"

definition call_file_op ::
  "file_obj list \<Rightarrow> file_operation \<Rightarrow> fileptr \<Rightarrow> (op_result \<times> file_obj list) outcome" where
  "call_file_op h opn capf =
     (case capsicum_file_ops_member opn of
        panic_ptr \<Rightarrow> Halt PANIC
      | null_handler \<Rightarrow> Ret (Not_called, h)
      | release_handler \<Rightarrow>
          (case capsicum_release h capf of
             Halt x \<Rightarrow> Halt x
           | Ret (rv, h') \<Rightarrow> Ret (Returned rv [], h'))
      | show_fdinfo_handler \<Rightarrow>
          (case capsicum_show_fdinfo h capf of
             Halt x \<Rightarrow> Halt x
           | Ret (rv, out) \<Rightarrow> Ret (Returned rv out, h)))"

section \<open>Notions used to state the properties\<close>

text \<open>The rights a file grants: those of a capability, all ones for any other file.\<close>

definition actual_rights_of :: "file_obj \<Rightarrow> u64" where
  "actual_rights_of f =
     (if capsicum_is_cap f then (case private_data f of None \<Rightarrow> - 1 | Some cap \<Rightarrow> rights cap)
      else - 1)"

text \<open>A capability whose structure is in place.\<close>

definition is_capability :: "file_obj \<Rightarrow> bool" where
  "is_capability f = (capsicum_is_cap f \<and> private_data f \<noteq> None)"

text \<open>The components of a pathname: the pieces between its slashes.\<close>

fun path_components :: "string \<Rightarrow> string list" where
  "path_components [] = [[]]"
| "path_components (c # cs) =
     (if c = CHR ''/'' then [] # path_components cs
      else (case path_components cs of [] \<Rightarrow> [[c]] | x # xs \<Rightarrow> (c # x) # xs))"

text \<open>
  The two arrays of a slate have the capacity that \<open>fd_count\<close> states.
\<close>

definition slate_wf :: "capsicum_pending_syscall \<Rightarrow> bool" where
  "slate_wf p = (length (fds p) = nat (fd_count p) \<and> length (files p) = nat (fd_count p))"

text \<open>
  The wrapper slot of a slate is null or holds a capability object ready for use.
\<close>

definition wrapper_ready :: "file_obj list \<Rightarrow> fileptr \<Rightarrow> bool" where
  "wrapper_ready h p =
     (p = NULL \<or> (case deref h p of None \<Rightarrow> False | Some f \<Rightarrow> is_capability f))"

text \<open>
  Flatness: the underlying file of every capability object, when it is set, is a
  file object that is not a capability.
\<close>

definition flat_file :: "file_obj list \<Rightarrow> file_obj \<Rightarrow> bool" where
  "flat_file h f =
     (if capsicum_is_cap f then
        (case private_data f of
           None \<Rightarrow> True
         | Some cap \<Rightarrow>
             (case underlying cap of
                Ptr u \<Rightarrow> (case deref h (Ptr u) of None \<Rightarrow> False | Some g \<Rightarrow> \<not> capsicum_is_cap g)
              | _ \<Rightarrow> True))
      else True)"

definition flat :: "file_obj list \<Rightarrow> bool" where
  "flat h = list_all (flat_file h) h"

text \<open>
  The operations of capsicum.c that create, initialise or destroy capability
  objects, as steps between kernel states.
\<close>

inductive capsicum_step :: "syscall_table \<Rightarrow> kstate \<Rightarrow> kstate \<Rightarrow> bool" for table where
  step_cap_new:
    "sys_cap_new env s orig_fd new_rights = Ret (res, s') \<Longrightarrow> capsicum_step table s s'"
| step_intercept:
    "capsicum_intercept_syscall table env s arch callnr args = Ret (res', s') \<Longrightarrow>
     capsicum_step table s s'"
| step_file_install:
    "capsicum_file_install s x fd = Ret (y, s') \<Longrightarrow> capsicum_step table s s'"
| step_fd_install:
    "fd_install s fd x = Ret s' \<Longrightarrow> capsicum_step table s s'"
| step_release:
    "capsicum_release (heap s) capf = Ret (res'', h') \<Longrightarrow> capsicum_step table s (s\<lparr>heap := h'\<rparr>)"

text \<open>
  Modelled from the spec: the pathname walk that calls the hook belongs to the
  host's name lookup, which is not among the sources. Section 4.6 of the spec:
  the hook fires per component of a pathname lookup. \<open>hook_names\<close> lists the
  names the hook is given during the lookup of a pathname: the pathname itself,
  and, for every further component, the rest of the pathname that starts at that
  component (slashes between components are skipped).
\<close>

fun later_names :: "string \<Rightarrow> string list" where
  "later_names [] = []"
| "later_names (c # cs) =
     (if c = CHR ''/'' \<and> cs \<noteq> [] \<and> hd cs \<noteq> CHR ''/'' then cs # later_names cs
      else later_names cs)"

definition hook_names :: "string \<Rightarrow> string list" where
  "hook_names p = p # later_names p"

section \<open>Concrete states\<close>

text \<open>
  Address 0 is an ordinary file, address 1 a capability for it with rights 1,
  address 2 another ordinary file, address 3 a pre-allocated wrapper that was never
  initialised, address 4 a capability for the second file with rights 3.
  Descriptor 3 names the first ordinary file, descriptor 4 the first capability.
\<close>

definition ex_heap :: "file_obj list" where
  "ex_heap =
     [\<lparr>f_op = other_file_ops, private_data = None, f_count = 2\<rparr>,
      \<lparr>f_op = capsicum_file_ops, private_data = Some \<lparr>rights = 1, underlying = Ptr 0\<rparr>, f_count = 1\<rparr>,
      \<lparr>f_op = other_file_ops, private_data = None, f_count = 1\<rparr>,
      \<lparr>f_op = capsicum_file_ops, private_data = Some \<lparr>rights = 0, underlying = NULL\<rparr>, f_count = 1\<rparr>,
      \<lparr>f_op = capsicum_file_ops, private_data = Some \<lparr>rights = 3, underlying = Ptr 2\<rparr>, f_count = 1\<rparr>]"

definition ex_fdtable :: "u32 \<rightharpoonup> nat" where
  "ex_fdtable = [3 \<mapsto> 0, 4 \<mapsto> 1]"

definition ex_slate :: capsicum_pending_syscall where
  "ex_slate =
     \<lparr>fds = [0, 0, 0, 0, 0, 0], files = [NULL, NULL, NULL, NULL, NULL, NULL],
      next_free = 0, fd_count = 6, next_new_cap = NULL, new_cap_rights = - 1, task = 7\<rparr>"

definition ex_state :: kstate where
  "ex_state =
     \<lparr>heap = ex_heap, fdtable = ex_fdtable, security = Some ex_slate, current = 7,
      tif_seccomp = True, seccomp_mode = SECCOMP_MODE_CAPSICUM, capsicum_enabled = True\<rparr>"

text \<open>A slate whose six slots are all taken.\<close>

definition ex_full_slate :: capsicum_pending_syscall where
  "ex_full_slate =
     \<lparr>fds = [3, 3, 3, 3, 3, 3], files = [Ptr 0, Ptr 0, Ptr 0, Ptr 0, Ptr 0, Ptr 0],
      next_free = 6, fd_count = 6, next_new_cap = NULL, new_cap_rights = 0, task = 7\<rparr>"

text \<open>
  Slates after an interception that checked descriptor 4 in two argument
  positions: both slots hold the capability at address 1; and one where the two
  slots hold different files.
\<close>

definition ex_alias_slate :: capsicum_pending_syscall where
  "ex_alias_slate =
     ex_slate\<lparr>fds := [4, 4, 0, 0, 0, 0],
               files := [Ptr 1, Ptr 1, NULL, NULL, NULL, NULL], next_free := 2\<rparr>"

definition ex_mixed_slate :: capsicum_pending_syscall where
  "ex_mixed_slate =
     ex_slate\<lparr>fds := [4, 4, 0, 0, 0, 0],
               files := [Ptr 4, Ptr 1, NULL, NULL, NULL, NULL], next_free := 2\<rparr>"

text \<open>A host on which every allocation succeeds; the next unused descriptor is 5.\<close>

definition ex_host :: host where
  "ex_host =
     \<lparr>prepare_creds_res = Some None, kmalloc_res = Some ([], []), kzalloc_ok = True,
      anon_inode_err = None, get_unused_fd_res = Inr 5, put_user_ok = True\<rparr>"

text \<open>
  A syscall table with two entries: \<^verbatim>\<open>openat\<close> requires right 1 on its first
  argument, syscall 32 (\<^verbatim>\<open>dup\<close>) requires no right on its first argument.
\<close>

definition ex_table :: syscall_table where
  "ex_table arch callnr args =
     (if callnr = NR_openat then Some [(hd args, 1)]
      else if callnr = 32 then Some [(hd args, 0)]
      else None)"

text \<open>
  The state after \<^verbatim>\<open>openat(4, ...)\<close> was intercepted in \<open>ex_state\<close>: the slate
  records descriptor 4 and holds a new wrapper, at address 5, with the rights of
  the capability at descriptor 4.
\<close>

definition ex_state_openat :: kstate where
  "ex_state_openat =
     ex_state\<lparr>heap := ex_heap @ [\<lparr>f_op = capsicum_file_ops,
                  private_data = Some \<lparr>rights = 0, underlying = NULL\<rparr>, f_count = 1\<rparr>],
               security := Some (ex_slate\<lparr>fds := [4, 0, 0, 0, 0, 0],
                  files := [Ptr 1, NULL, NULL, NULL, NULL, NULL], next_free := 1,
                  next_new_cap := Ptr 5, new_cap_rights := 1\<rparr>)\<rparr>"

text \<open>
  The state after that \<^verbatim>\<open>openat\<close> failed before installing a descriptor and
  \<^verbatim>\<open>dup(3)\<close> was intercepted next: the wrapper lingers, the rights are 0.
\<close>

definition ex_state_dup :: kstate where
  "ex_state_dup =
     ex_state_openat\<lparr>security := Some (ex_slate\<lparr>fds := [3, 0, 0, 0, 0, 0],
                  files := [Ptr 0, NULL, NULL, NULL, NULL, NULL], next_free := 1,
                  next_new_cap := Ptr 5, new_cap_rights := 0\<rparr>)\<rparr>"

text \<open>
  \<open>ex_state\<close> with the capability at descriptor 4 holding all rights, and the state
  after \<^verbatim>\<open>openat(4, ...)\<close> was intercepted there.
\<close>

definition ex_allrights_state :: kstate where
  "ex_allrights_state =
     ex_state\<lparr>heap := ex_heap[1 := \<lparr>f_op = capsicum_file_ops,
                  private_data = Some \<lparr>rights = - 1, underlying = Ptr 0\<rparr>, f_count = 1\<rparr>]\<rparr>"

definition ex_allrights_openat :: kstate where
  "ex_allrights_openat =
     ex_allrights_state\<lparr>heap := heap ex_allrights_state @ [\<lparr>f_op = capsicum_file_ops,
                  private_data = Some \<lparr>rights = 0, underlying = NULL\<rparr>, f_count = 1\<rparr>],
               security := Some (ex_slate\<lparr>fds := [4, 0, 0, 0, 0, 0],
                  files := [Ptr 1, NULL, NULL, NULL, NULL, NULL], next_free := 1,
                  next_new_cap := Ptr 5, new_cap_rights := - 1\<rparr>)\<rparr>"

text \<open>
  The state after the file at address 2 was installed at descriptor 5 in
  \<open>ex_state_openat\<close>: the wrapper at address 5 is a capability for it with rights 1.
\<close>

definition ex_state_installed :: kstate where
  "ex_state_installed =
     ex_state\<lparr>heap := ex_heap @ [\<lparr>f_op = capsicum_file_ops,
                  private_data = Some \<lparr>rights = 1, underlying = Ptr 2\<rparr>, f_count = 1\<rparr>],
               fdtable := ex_fdtable(5 \<mapsto> 5),
               security := Some (ex_slate\<lparr>fds := [4, 0, 0, 0, 0, 0],
                  files := [Ptr 1, NULL, NULL, NULL, NULL, NULL], next_free := 1,
                  next_new_cap := NULL, new_cap_rights := 0\<rparr>)\<rparr>"

text \<open>
  The state after \<^verbatim>\<open>openat(4, ...)\<close> was intercepted in \<open>ex_state\<close> on a host
  without memory for the wrapper: the slate keeps the error pointer.
\<close>

definition ex_state_nomem :: kstate where
  "ex_state_nomem =
     ex_state\<lparr>security := Some (ex_slate\<lparr>fds := [4, 0, 0, 0, 0, 0],
                  files := [Ptr 1, NULL, NULL, NULL, NULL, NULL], next_free := 1,
                  next_new_cap := ERR_PTR ENOMEM, new_cap_rights := 0\<rparr>)\<rparr>"

section \<open>The rights check (C6)\<close>

lemma ex_heap_deref:
  "deref ex_heap (Ptr 0) = Some \<lparr>f_op = other_file_ops, private_data = None, f_count = 2\<rparr>"
  "deref ex_heap (Ptr 1) =
     Some \<lparr>f_op = capsicum_file_ops, private_data = Some \<lparr>rights = 1, underlying = Ptr 0\<rparr>, f_count = 1\<rparr>"
  "deref ex_heap (Ptr 2) = Some \<lparr>f_op = other_file_ops, private_data = None, f_count = 1\<rparr>"
  "deref ex_heap (Ptr 3) =
     Some \<lparr>f_op = capsicum_file_ops, private_data = Some \<lparr>rights = 0, underlying = NULL\<rparr>, f_count = 1\<rparr>"
  "deref ex_heap (Ptr 4) =
     Some \<lparr>f_op = capsicum_file_ops, private_data = Some \<lparr>rights = 3, underlying = Ptr 2\<rparr>, f_count = 1\<rparr>"
  by (simp_all add: deref_def ex_heap_def)

lemma ex_state_simps:
  "heap ex_state = ex_heap" "fdtable ex_state = ex_fdtable" "security ex_state = Some ex_slate"
  "current ex_state = 7" "capsicum_enabled ex_state" "capsicum_in_cap_mode ex_state"
  by (simp_all add: ex_state_def capsicum_in_cap_mode_def)

lemma ex_fcheck:
  "fcheck ex_state 3 = Ptr 0" "fcheck ex_state 4 = Ptr 1" "fcheck ex_state 5 = NULL"
  by (simp_all add: fcheck_def ex_state_simps ex_fdtable_def)

lemma capsicum_unwrap_deref:
  "deref h p = Some f \<Longrightarrow> capsicum_is_cap f \<longrightarrow> private_data f \<noteq> None \<Longrightarrow>
   \<exists>u. capsicum_unwrap h p = Ret (u, if capsicum_is_cap f then Some (actual_rights_of f) else None)"
  by (auto simp: capsicum_unwrap_def actual_rights_of_def)

text \<open>
  C6, as the code has it. The rights check of the interceptor, for an fd argument
  \<open>fd\<close> and required rights \<open>req\<close>:
  \<^item> the magic value \<open>AT_FDCWD\<close> fails \<open>ECAPMODE\<close>, whatever else holds;
  \<^item> an fd that the descriptor table does not resolve fails \<open>EBADF\<close>;
  \<^item> otherwise, when the slate has no free slot (\<open>next_free \<ge> fd_count\<close>) the check
    fails \<open>ENOMEM\<close> and records nothing;
  \<^item> otherwise the pair (fd, file) is written to slot \<open>next_free\<close>, \<open>next_free\<close>
    grows by one, and the check fails \<open>ENOTCAPABLE\<close> exactly when
    \<open>actual_rights AND req \<noteq> req\<close>, where the actual rights are the capability's
    rights, or all ones for a file that is not a capability; it succeeds otherwise.
\<close>

theorem capsicum_require_rights_cases:
  "(fd = AT_FDCWD \<longrightarrow>
      capsicum_require_rights s pending fd req = Ret (Inl ECAPMODE, pending)) \<and>
   (fd \<noteq> AT_FDCWD \<and> fdtable s (ucast fd) = None \<longrightarrow>
      capsicum_require_rights s pending fd req = Ret (Inl EBADF, pending)) \<and>
   (fd \<noteq> AT_FDCWD \<and> fdtable s (ucast fd) = Some a \<and> deref (heap s) (Ptr a) = Some f \<and>
    (capsicum_is_cap f \<longrightarrow> private_data f \<noteq> None) \<longrightarrow>
      capsicum_require_rights s pending fd req =
        (if fd_count pending \<le> next_free pending then Ret (Inl ENOMEM, pending)
         else Ret (if actual_rights_of f AND req = req then Inr () else Inl ENOTCAPABLE,
                   pending\<lparr>fds := (fds pending)[nat (next_free pending) := ucast fd],
                           files := (files pending)[nat (next_free pending) := Ptr a],
                           next_free := next_free pending + 1\<rparr>)))"
proof (intro conjI impI)
  assume "fd = AT_FDCWD"
  then show "capsicum_require_rights s pending fd req = Ret (Inl ECAPMODE, pending)"
    by (simp add: capsicum_require_rights_def)
next
  assume "fd \<noteq> AT_FDCWD \<and> fdtable s (ucast fd) = None"
  then show "capsicum_require_rights s pending fd req = Ret (Inl EBADF, pending)"
    by (simp add: capsicum_require_rights_def fcheck_def)
next
  assume h: "fd \<noteq> AT_FDCWD \<and> fdtable s (ucast fd) = Some a \<and> deref (heap s) (Ptr a) = Some f \<and>
    (capsicum_is_cap f \<longrightarrow> private_data f \<noteq> None)"
  then obtain u where
    "capsicum_unwrap (heap s) (Ptr a) =
       Ret (u, if capsicum_is_cap f then Some (actual_rights_of f) else None)"
    using capsicum_unwrap_deref by blast
  moreover have "\<not> capsicum_is_cap f \<Longrightarrow> actual_rights_of f = - 1"
    by (simp add: actual_rights_of_def)
  ultimately show "capsicum_require_rights s pending fd req =
        (if fd_count pending \<le> next_free pending then Ret (Inl ENOMEM, pending)
         else Ret (if actual_rights_of f AND req = req then Inr () else Inl ENOTCAPABLE,
                   pending\<lparr>fds := (fds pending)[nat (next_free pending) := ucast fd],
                           files := (files pending)[nat (next_free pending) := Ptr a],
                           next_free := next_free pending + 1\<rparr>))"
    using h by (simp add: capsicum_require_rights_def fcheck_def Let_def)
qed

theorem capsicum_require_rights_cases_witness:
  "capsicum_require_rights ex_state ex_slate AT_FDCWD 1 = Ret (Inl ECAPMODE, ex_slate) \<and>
   capsicum_require_rights ex_state ex_slate 5 1 = Ret (Inl EBADF, ex_slate) \<and>
   capsicum_require_rights ex_state ex_slate 4 1 =
     Ret (Inr (), ex_slate\<lparr>fds := [4, 0, 0, 0, 0, 0],
                            files := [Ptr 1, NULL, NULL, NULL, NULL, NULL], next_free := 1\<rparr>) \<and>
   capsicum_require_rights ex_state ex_slate 4 3 =
     Ret (Inl ENOTCAPABLE, ex_slate\<lparr>fds := [4, 0, 0, 0, 0, 0],
                            files := [Ptr 1, NULL, NULL, NULL, NULL, NULL], next_free := 1\<rparr>)"
proof -
  let ?c = "\<lparr>f_op = capsicum_file_ops,
             private_data = Some \<lparr>rights = 1, underlying = Ptr 0\<rparr>, f_count = 1\<rparr>"
  have n: "(5::u64) \<noteq> AT_FDCWD" "(4::u64) \<noteq> AT_FDCWD"
    by (simp_all add: AT_FDCWD_def)
  have t: "fdtable ex_state (ucast (5::u64)) = None" "fdtable ex_state (ucast (4::u64)) = Some 1"
    by (simp_all add: ex_state_simps ex_fdtable_def)
  have d: "deref (heap ex_state) (Ptr 1) = Some ?c"
    by (simp add: ex_state_simps deref_def ex_heap_def)
  have c: "capsicum_is_cap ?c \<longrightarrow> private_data ?c \<noteq> None"
    by simp
  have r: "actual_rights_of ?c = 1"
    by (simp add: actual_rights_of_def capsicum_is_cap_def)
  have u: "(fds ex_slate)[nat (next_free ex_slate) := ucast (4::u64)] = [4, 0, 0, 0, 0, 0]"
    "(files ex_slate)[nat (next_free ex_slate) := Ptr 1] = [Ptr 1, NULL, NULL, NULL, NULL, NULL]"
    "next_free ex_slate + 1 = 1" "\<not> fd_count ex_slate \<le> next_free ex_slate"
    by (simp_all add: ex_slate_def)
  have a: "(1::u64) AND 1 = 1" "(1::u64) AND 3 \<noteq> 3"
    by simp_all
  note T = capsicum_require_rights_cases
  have 1: "capsicum_require_rights ex_state ex_slate AT_FDCWD 1 = Ret (Inl ECAPMODE, ex_slate)"
    using T [of AT_FDCWD ex_state ex_slate 1] by simp
  have 2: "capsicum_require_rights ex_state ex_slate 5 1 = Ret (Inl EBADF, ex_slate)"
    using T [of 5 ex_state ex_slate 1] n t by simp
  have 3: "capsicum_require_rights ex_state ex_slate 4 1 =
     Ret (Inr (), ex_slate\<lparr>fds := [4, 0, 0, 0, 0, 0],
                            files := [Ptr 1, NULL, NULL, NULL, NULL, NULL], next_free := 1\<rparr>)"
    using T [of 4 ex_state ex_slate 1 1 ?c] n t d c by (simp only: r u a if_True if_False simp_thms)
  have 4: "capsicum_require_rights ex_state ex_slate 4 3 =
     Ret (Inl ENOTCAPABLE, ex_slate\<lparr>fds := [4, 0, 0, 0, 0, 0],
                            files := [Ptr 1, NULL, NULL, NULL, NULL, NULL], next_free := 1\<rparr>)"
    using T [of 4 ex_state ex_slate 3 1 ?c] n t d c by (simp only: r u a if_True if_False simp_thms)
  show ?thesis using 1 2 3 4 by simp
qed

text \<open>
  The claim's "otherwise" leaves out the full slate: descriptor 3 resolves to an
  ordinary file, no right is required, yet the check fails \<open>ENOMEM\<close> and the slate
  is left as it was.
\<close>

theorem capsicum_require_rights_full_slate:
  "capsicum_require_rights ex_state ex_full_slate 3 0 = Ret (Inl ENOMEM, ex_full_slate) \<and>
   (3::u64) \<noteq> AT_FDCWD \<and> fcheck ex_state (ucast (3::u64)) = Ptr 0 \<and>
   actual_rights_of (ex_heap ! 0) AND 0 = 0"
proof -
  have "capsicum_require_rights ex_state ex_full_slate 3 0 = Ret (Inl ENOMEM, ex_full_slate)"
    by (simp add: capsicum_require_rights_def AT_FDCWD_def ex_fcheck capsicum_unwrap_def
        ex_heap_deref ex_state_simps capsicum_is_cap_def ex_full_slate_def Let_def)
  moreover have "(3::u64) \<noteq> AT_FDCWD"
    by (simp add: AT_FDCWD_def)
  moreover have "fcheck ex_state (ucast (3::u64)) = Ptr 0"
    by (simp add: ex_fcheck)
  ultimately show ?thesis by simp
qed

section \<open>The descriptor-lookup hook (C1, C10)\<close>

lemma lookup_scan_None:
  "lookup_scan es file fd b = None \<longleftrightarrow> (\<exists>e\<in>set es. fst e = fd \<and> snd e \<noteq> file)"
proof (induction es arbitrary: b)
  case Nil
  show ?case by simp
next
  case (Cons e es)
  obtain f fl where e: "e = (f, fl)" by (cases e)
  show ?case by (auto simp: e Cons.IH)
qed

lemma lookup_scan_Some:
  "lookup_scan es file fd b = Some found \<Longrightarrow> found = (b \<or> (\<exists>e\<in>set es. fst e = fd))"
proof (induction es arbitrary: b)
  case Nil
  then show ?case by simp
next
  case (Cons e es)
  obtain f fl where e: "e = (f, fl)" by (cases e)
  show ?case
  proof (cases "f = fd")
    case True
    with Cons.prems e have "lookup_scan es file fd True = Some found"
      by (simp split: if_splits)
    from Cons.IH [OF this] True e show ?thesis by simp
  next
    case False
    with Cons.prems e have "lookup_scan es file fd b = Some found"
      by simp
    from Cons.IH [OF this] False e show ?thesis by simp
  qed
qed

lemma ex_lookup_simps:
  "capsicum_get_pending_syscall (ex_state\<lparr>security := Some p\<rparr>) =
     (if task p = 7 then Some p else None)"
  "capsicum_in_cap_mode (ex_state\<lparr>security := x\<rparr>)"
  "heap (ex_state\<lparr>security := x\<rparr>) = ex_heap"
  "capsicum_get_pending_syscall ex_state = Some ex_slate"
  by (simp_all add: capsicum_get_pending_syscall_def capsicum_in_cap_mode_def ex_state_def
      ex_slate_def)

text \<open>
  C1, as the code has it. A capability file (with its underlying file in place) is
  resolved at \<open>fd\<close> while the thread is in capability mode and has a slate of its
  own. The hook walks all recorded slots \<open>0 .. next_free - 1\<close>:
  \<^item> if some slot recording \<open>fd\<close> holds a file pointer other than the one observed
    now, the lookup is denied (the hook returns the null pointer, which the caller
    turns into \<open>EBADF\<close>), even when another slot for the same fd matches;
  \<^item> if at least one slot records \<open>fd\<close> and every slot recording it holds the
    observed pointer, the underlying file is returned;
  \<^item> if no slot records \<open>fd\<close>, the hook stops in \<^verbatim>\<open>BUG_ON(!found_fd)\<close>.
  The hook does not change the slate, so every later resolution of a swapped fd is
  denied in the same way.
\<close>

theorem capsicum_file_lookup_checks_all:
  assumes "capsicum_in_cap_mode s"
    and "capsicum_get_pending_syscall s = Some pending"
    and "deref (heap s) file = Some f"
    and "capsicum_is_cap f"
    and "private_data f = Some cap"
    and "underlying cap \<noteq> NULL"
  shows "((\<exists>e\<in>set (slate_entries pending). fst e = fd \<and> snd e \<noteq> file) \<longrightarrow>
            capsicum_file_lookup s file fd = Ret NULL) \<and>
         ((\<exists>e\<in>set (slate_entries pending). fst e = fd) \<and>
          (\<forall>e\<in>set (slate_entries pending). fst e = fd \<longrightarrow> snd e = file) \<longrightarrow>
            capsicum_file_lookup s file fd = Ret (underlying cap)) \<and>
         ((\<forall>e\<in>set (slate_entries pending). fst e \<noteq> fd) \<longrightarrow>
            capsicum_file_lookup s file fd = Halt BUG)"
proof -
  let ?es = "slate_entries pending"
  have unwrap: "capsicum_unwrap (heap s) file = Ret (underlying cap, Some (rights cap))"
    using assms by (simp add: capsicum_unwrap_def)
  have body: "capsicum_file_lookup s file fd =
      (case lookup_scan ?es file fd False of
         None \<Rightarrow> Ret NULL
       | Some found_fd \<Rightarrow> if \<not> found_fd then Halt BUG else Ret (underlying cap))"
    using assms unwrap by (simp add: capsicum_file_lookup_def)
  show ?thesis
  proof (intro conjI impI)
    assume "\<exists>e\<in>set ?es. fst e = fd \<and> snd e \<noteq> file"
    then have "lookup_scan ?es file fd False = None"
      by (simp add: lookup_scan_None)
    then show "capsicum_file_lookup s file fd = Ret NULL"
      by (simp add: body)
  next
    assume a: "(\<exists>e\<in>set ?es. fst e = fd) \<and> (\<forall>e\<in>set ?es. fst e = fd \<longrightarrow> snd e = file)"
    then have "lookup_scan ?es file fd False \<noteq> None"
      by (auto simp: lookup_scan_None)
    then obtain found where f: "lookup_scan ?es file fd False = Some found"
      by blast
    with a have "found" using lookup_scan_Some [OF f] by simp
    with f show "capsicum_file_lookup s file fd = Ret (underlying cap)"
      by (simp add: body)
  next
    assume a: "\<forall>e\<in>set ?es. fst e \<noteq> fd"
    then have "lookup_scan ?es file fd False \<noteq> None"
      by (auto simp: lookup_scan_None)
    then obtain found where f: "lookup_scan ?es file fd False = Some found"
      by blast
    with a have "\<not> found" using lookup_scan_Some [OF f] by simp
    with f show "capsicum_file_lookup s file fd = Halt BUG"
      by (simp add: body)
  qed
qed

theorem capsicum_file_lookup_checks_all_witness:
  "capsicum_file_lookup (ex_state\<lparr>security := Some ex_alias_slate\<rparr>) (Ptr 4) 4 = Ret NULL \<and>
   capsicum_file_lookup (ex_state\<lparr>security := Some ex_mixed_slate\<rparr>) (Ptr 4) 4 = Ret NULL \<and>
   capsicum_file_lookup (ex_state\<lparr>security := Some ex_alias_slate\<rparr>) (Ptr 1) 4 = Ret (Ptr 0) \<and>
   capsicum_file_lookup (ex_state\<lparr>security := Some ex_alias_slate\<rparr>) (Ptr 1) 3 = Halt BUG"
proof -
  let ?c1 = "\<lparr>rights = 1, underlying = Ptr 0\<rparr>"
  let ?c4 = "\<lparr>rights = 3, underlying = Ptr 2\<rparr>"
  let ?f1 = "\<lparr>f_op = capsicum_file_ops, private_data = Some ?c1, f_count = 1\<rparr>"
  let ?f4 = "\<lparr>f_op = capsicum_file_ops, private_data = Some ?c4, f_count = 1\<rparr>"
  let ?sa = "ex_state\<lparr>security := Some ex_alias_slate\<rparr>"
  let ?sm = "ex_state\<lparr>security := Some ex_mixed_slate\<rparr>"
  have p: "capsicum_get_pending_syscall ?sa = Some ex_alias_slate"
    "capsicum_get_pending_syscall ?sm = Some ex_mixed_slate"
    by (simp_all add: ex_lookup_simps ex_alias_slate_def ex_mixed_slate_def ex_slate_def)
  have d: "deref (heap ?sa) (Ptr 1) = Some ?f1" "deref (heap ?sa) (Ptr 4) = Some ?f4"
    "deref (heap ?sm) (Ptr 4) = Some ?f4"
    by (simp_all add: ex_lookup_simps deref_def ex_heap_def)
  have c: "capsicum_is_cap ?f1" "capsicum_is_cap ?f4"
    by (simp_all add: capsicum_is_cap_def)
  have ea: "slate_entries ex_alias_slate = [(4, Ptr 1), (4, Ptr 1)]"
    by (simp add: slate_entries_def ex_alias_slate_def ex_slate_def)
  have em: "slate_entries ex_mixed_slate = [(4, Ptr 4), (4, Ptr 1)]"
    by (simp add: slate_entries_def ex_mixed_slate_def ex_slate_def)
  note T = capsicum_file_lookup_checks_all
  have 1: "capsicum_file_lookup ?sa (Ptr 4) 4 = Ret NULL"
    using T [OF ex_lookup_simps(2) p(1) d(2) c(2), of ?c4 4] by (simp add: ea)
  have 2: "capsicum_file_lookup ?sm (Ptr 4) 4 = Ret NULL"
    using T [OF ex_lookup_simps(2) p(2) d(3) c(2), of ?c4 4] by (simp add: em)
  have 3: "capsicum_file_lookup ?sa (Ptr 1) 4 = Ret (Ptr 0)"
    using T [OF ex_lookup_simps(2) p(1) d(1) c(1), of ?c1 4] by (simp add: ea)
  have 4: "capsicum_file_lookup ?sa (Ptr 1) 3 = Halt BUG"
    using T [OF ex_lookup_simps(2) p(1) d(1) c(1), of ?c1 3] by (simp add: ea)
  show ?thesis using 1 2 3 4 by simp
qed

text \<open>
  With no slot recording the fd, every slot recording it matches, yet the
  underlying file is not returned: with the empty slate, resolving the capability
  at descriptor 4 stops in \<^verbatim>\<open>BUG_ON\<close>.
\<close>

theorem capsicum_file_lookup_unrecorded_fd:
  "capsicum_file_lookup ex_state (Ptr 1) 4 = Halt BUG \<and>
   slate_entries ex_slate = [] \<and>
   capsicum_get_pending_syscall ex_state = Some ex_slate \<and>
   capsicum_in_cap_mode ex_state \<and>
   capsicum_unwrap (heap ex_state) (Ptr 1) = Ret (Ptr 0, Some 1)"
  by (simp add: capsicum_file_lookup_def capsicum_unwrap_def deref_def ex_heap_def ex_state_def
      capsicum_is_cap_def capsicum_get_pending_syscall_def ex_slate_def
      capsicum_in_cap_mode_def slate_entries_def)

text \<open>
  C10. When the thread is not in capability mode, or has no slate of its own, the
  hook unwraps a capability file (with its underlying file in place) and returns
  the underlying file, whatever the fd, the slate and the capability's rights are.
\<close>

theorem capsicum_file_lookup_outside_cap_mode:
  assumes "\<not> capsicum_in_cap_mode s \<or> capsicum_get_pending_syscall s = None"
    and "deref (heap s) file = Some f"
    and "capsicum_is_cap f"
    and "private_data f = Some cap"
    and "underlying cap \<noteq> NULL"
  shows "capsicum_file_lookup s file fd = Ret (underlying cap)"
  using assms by (auto simp: capsicum_file_lookup_def capsicum_unwrap_def split: option.splits)

theorem capsicum_file_lookup_outside_cap_mode_witness:
  "capsicum_file_lookup (ex_state\<lparr>tif_seccomp := False\<rparr>) (Ptr 1) 4 = Ret (Ptr 0) \<and>
   capsicum_file_lookup (ex_state\<lparr>security := None\<rparr>) (Ptr 1) 9 = Ret (Ptr 0) \<and>
   capsicum_file_lookup (ex_state\<lparr>current := 8\<rparr>) (Ptr 4) 4 = Ret (Ptr 2)"
proof -
  let ?c1 = "\<lparr>rights = 1, underlying = Ptr 0\<rparr>"
  let ?c4 = "\<lparr>rights = 3, underlying = Ptr 2\<rparr>"
  let ?f1 = "\<lparr>f_op = capsicum_file_ops, private_data = Some ?c1, f_count = 1\<rparr>"
  let ?f4 = "\<lparr>f_op = capsicum_file_ops, private_data = Some ?c4, f_count = 1\<rparr>"
  have m: "\<not> capsicum_in_cap_mode (ex_state\<lparr>tif_seccomp := False\<rparr>) \<or>
           capsicum_get_pending_syscall (ex_state\<lparr>tif_seccomp := False\<rparr>) = None"
    "\<not> capsicum_in_cap_mode (ex_state\<lparr>security := None\<rparr>) \<or>
           capsicum_get_pending_syscall (ex_state\<lparr>security := None\<rparr>) = None"
    "\<not> capsicum_in_cap_mode (ex_state\<lparr>current := 8\<rparr>) \<or>
           capsicum_get_pending_syscall (ex_state\<lparr>current := 8\<rparr>) = None"
    by (simp_all add: capsicum_in_cap_mode_def capsicum_get_pending_syscall_def ex_state_def
        ex_slate_def)
  have d: "deref (heap (ex_state\<lparr>tif_seccomp := False\<rparr>)) (Ptr 1) = Some ?f1"
    "deref (heap (ex_state\<lparr>security := None\<rparr>)) (Ptr 1) = Some ?f1"
    "deref (heap (ex_state\<lparr>current := 8\<rparr>)) (Ptr 4) = Some ?f4"
    by (simp_all add: ex_state_def deref_def ex_heap_def)
  have c: "capsicum_is_cap ?f1" "capsicum_is_cap ?f4"
    by (simp_all add: capsicum_is_cap_def)
  note T = capsicum_file_lookup_outside_cap_mode
  show ?thesis
    using T [OF m(1) d(1) c(1), of ?c1 4] T [OF m(2) d(2) c(1), of ?c1 9]
      T [OF m(3) d(3) c(2), of ?c4 4]
    by simp
qed

section \<open>One call of the path-lookup hook\<close>

lemma path_components_not_Nil: "path_components name \<noteq> []"
  by (induction name) (auto split: list.splits)

lemma hd_path_components:
  "hd (path_components name) = takeWhile (\<lambda>c. c \<noteq> CHR ''/'') name"
  by (induction name) (auto simp: path_components_not_Nil split: list.splits)

lemma capsicum_path_lookup_chars:
  assumes "CHR 0x00 \<notin> set name"
  shows "(char_at name 0 = CHR ''.'' \<and> char_at name 1 = CHR ''.'' \<and>
          (char_at name 2 = CHR 0x00 \<or> char_at name 2 = CHR ''/'')) \<longleftrightarrow>
         takeWhile (\<lambda>c. c \<noteq> CHR ''/'') name = ''..''"
proof (cases name)
  case Nil
  then show ?thesis by (simp add: char_at_def)
next
  case (Cons a r1)
  note n1 = Cons
  show ?thesis
  proof (cases r1)
    case Nil
    with n1 show ?thesis by (auto simp: char_at_def)
  next
    case (Cons b r2)
    note n2 = Cons
    show ?thesis
    proof (cases r2)
      case Nil
      with n1 n2 show ?thesis by (auto simp: char_at_def)
    next
      case (Cons c r3)
      with n1 n2 assms show ?thesis by (auto simp: char_at_def)
    qed
  qed
qed

text \<open>
  One call of the hook, on a C string (no NUL inside): in capability mode it
  rejects exactly when the first component of the name is \<open>..\<close> or the name
  starts with a slash.
\<close>

lemma capsicum_path_lookup_one_call:
  assumes "CHR 0x00 \<notin> set name"
  shows "capsicum_path_lookup s name =
           (if capsicum_in_cap_mode s \<and>
               (hd (path_components name) = ''..'' \<or> (\<exists>rest. name = CHR ''/'' # rest))
            then Inl ECAPMODE else Inr ())"
proof -
  have "char_at name 0 = CHR ''/'' \<longleftrightarrow> (\<exists>rest. name = CHR ''/'' # rest)"
    using assms by (cases name) (auto simp: char_at_def)
  then show ?thesis
    using capsicum_path_lookup_chars [OF assms]
    by (simp add: capsicum_path_lookup_def hd_path_components)
qed

section \<open>The path-lookup hook over a pathname (C7)\<close>

lemma later_names_props:
  "q \<in> set (later_names p) \<Longrightarrow> q \<noteq> [] \<and> hd q \<noteq> CHR ''/'' \<and> set q \<subseteq> set p"
  by (induction p) (auto split: if_splits)

lemma tl_path_components:
  "tl (path_components (c # cs)) =
     (if c = CHR ''/'' then path_components cs else tl (path_components cs))"
  by (cases "path_components cs") (simp_all add: path_components_not_Nil)

lemma dotdot_later:
  "''..'' \<in> set (tl (path_components p)) \<longleftrightarrow>
     (\<exists>q\<in>set (later_names p). hd (path_components q) = ''..'')"
proof (induction p)
  case Nil
  show ?case by simp
next
  case (Cons c cs)
  show ?case
  proof (cases "c = CHR ''/''")
    case False
    with Cons.IH show ?thesis by (simp add: tl_path_components del: path_components.simps)
  next
    case True
    have split: "''..'' \<in> set (path_components cs) \<longleftrightarrow>
        hd (path_components cs) = ''..'' \<or> ''..'' \<in> set (tl (path_components cs))"
      by (cases "path_components cs") (simp_all add: path_components_not_Nil, auto)
    have first: "hd (path_components cs) = ''..'' \<Longrightarrow> cs \<noteq> [] \<and> hd cs \<noteq> CHR ''/''"
      by (cases cs) (auto simp: hd_path_components split: if_splits)
    show ?thesis
      using True Cons.IH split first
      by (auto simp: tl_path_components simp del: path_components.simps)
  qed
qed

lemma dotdot_component:
  "''..'' \<in> set (path_components p) \<longleftrightarrow>
     (\<exists>q\<in>set (hook_names p). hd (path_components q) = ''..'')"
proof -
  have "''..'' \<in> set (path_components p) \<longleftrightarrow>
        hd (path_components p) = ''..'' \<or> ''..'' \<in> set (tl (path_components p))"
    by (cases "path_components p") (simp_all add: path_components_not_Nil, auto)
  then show ?thesis by (simp add: hook_names_def dotdot_later)
qed

text \<open>
  C7. For every pathname \<open>p\<close> (a C string, so without a NUL inside) and the calls
  of the hook that the lookup of \<open>p\<close> makes, one per component: when the thread
  is in capability mode, the hook rejects \<open>p\<close> (some call returns \<open>ECAPMODE\<close>) if
  \<open>p\<close> starts with a slash or has a component \<open>..\<close>, and no call rejects
  otherwise; a call returns nothing but \<open>ECAPMODE\<close> or 0. When the thread is not
  in capability mode, the hook rejects no name at all.
\<close>

theorem capsicum_path_lookup_rejects:
  assumes "CHR 0x00 \<notin> set p"
  shows "((\<exists>q\<in>set (hook_names p). capsicum_path_lookup s q = Inl ECAPMODE) \<longleftrightarrow>
            capsicum_in_cap_mode s \<and>
            ((\<exists>rest. p = CHR ''/'' # rest) \<or> ''..'' \<in> set (path_components p))) \<and>
         (\<forall>q\<in>set (hook_names p).
            capsicum_path_lookup s q = Inl ECAPMODE \<or> capsicum_path_lookup s q = Inr ()) \<and>
         (\<not> capsicum_in_cap_mode s \<longrightarrow> (\<forall>q. capsicum_path_lookup s q = Inr ()))"
proof -
  have nul: "CHR 0x00 \<notin> set q" if "q \<in> set (hook_names p)" for q
    using that assms later_names_props [of q p] by (auto simp: hook_names_def)
  have one: "capsicum_path_lookup s q = Inl ECAPMODE \<longleftrightarrow>
      capsicum_in_cap_mode s \<and>
      (hd (path_components q) = ''..'' \<or> (\<exists>rest. q = CHR ''/'' # rest))"
    if "q \<in> set (hook_names p)" for q
    using capsicum_path_lookup_one_call [OF nul [OF that], of s] by simp
  have later: "\<not> (\<exists>rest. q = CHR ''/'' # rest)" if "q \<in> set (later_names p)" for q
    using later_names_props [OF that] by auto
  have "(\<exists>q\<in>set (hook_names p). capsicum_path_lookup s q = Inl ECAPMODE) \<longleftrightarrow>
        capsicum_in_cap_mode s \<and>
        ((\<exists>rest. p = CHR ''/'' # rest) \<or> ''..'' \<in> set (path_components p))"
  proof
    assume "\<exists>q\<in>set (hook_names p). capsicum_path_lookup s q = Inl ECAPMODE"
    then obtain q where q: "q \<in> set (hook_names p)" "capsicum_in_cap_mode s"
      "hd (path_components q) = ''..'' \<or> (\<exists>rest. q = CHR ''/'' # rest)"
      using one by blast
    show "capsicum_in_cap_mode s \<and>
        ((\<exists>rest. p = CHR ''/'' # rest) \<or> ''..'' \<in> set (path_components p))"
    proof (cases "hd (path_components q) = ''..''")
      case True
      with q(1) have "''..'' \<in> set (path_components p)"
        unfolding dotdot_component by blast
      with q(2) show ?thesis by simp
    next
      case False
      with q(3) have sl: "\<exists>rest. q = CHR ''/'' # rest" by simp
      with later q(1) have "q = p" by (auto simp: hook_names_def)
      with sl q(2) show ?thesis by simp
    qed
  next
    assume a: "capsicum_in_cap_mode s \<and>
        ((\<exists>rest. p = CHR ''/'' # rest) \<or> ''..'' \<in> set (path_components p))"
    show "\<exists>q\<in>set (hook_names p). capsicum_path_lookup s q = Inl ECAPMODE"
    proof (cases "\<exists>rest. p = CHR ''/'' # rest")
      case True
      have "p \<in> set (hook_names p)" by (simp add: hook_names_def)
      with True a one show ?thesis by blast
    next
      case False
      with a have "''..'' \<in> set (path_components p)" by simp
      then obtain q where "q \<in> set (hook_names p)" "hd (path_components q) = ''..''"
        unfolding dotdot_component by blast
      with a one show ?thesis by blast
    qed
  qed
  moreover have "\<forall>q\<in>set (hook_names p).
      capsicum_path_lookup s q = Inl ECAPMODE \<or> capsicum_path_lookup s q = Inr ()"
    by (simp add: capsicum_path_lookup_def)
  moreover have "\<not> capsicum_in_cap_mode s \<longrightarrow> (\<forall>q. capsicum_path_lookup s q = Inr ())"
    by (simp add: capsicum_path_lookup_def)
  ultimately show ?thesis by blast
qed

theorem capsicum_path_lookup_rejects_witness:
  "hook_names ''a/../b'' = [''a/../b'', ''../b'', ''b''] \<and>
   capsicum_path_lookup ex_state ''a/../b'' = Inr () \<and>
   capsicum_path_lookup ex_state ''../b'' = Inl ECAPMODE \<and>
   (\<exists>q\<in>set (hook_names ''a/../b''). capsicum_path_lookup ex_state q = Inl ECAPMODE) \<and>
   (\<exists>q\<in>set (hook_names ''/etc/passwd''). capsicum_path_lookup ex_state q = Inl ECAPMODE) \<and>
   \<not> (\<exists>q\<in>set (hook_names ''a//b..''). capsicum_path_lookup ex_state q = Inl ECAPMODE) \<and>
   \<not> (\<exists>q\<in>set (hook_names ''a/../b'').
        capsicum_path_lookup (ex_state\<lparr>tif_seccomp := False\<rparr>) q = Inl ECAPMODE)"
proof -
  have z: "CHR 0x00 \<notin> set ''a/../b''" "CHR 0x00 \<notin> set ''/etc/passwd''"
    "CHR 0x00 \<notin> set ''a//b..''"
    by simp_all
  have m: "capsicum_in_cap_mode ex_state" "\<not> capsicum_in_cap_mode (ex_state\<lparr>tif_seccomp := False\<rparr>)"
    by (simp_all add: capsicum_in_cap_mode_def ex_state_def)
  have c: "''..'' \<in> set (path_components ''a/../b'')"
    "''..'' \<notin> set (path_components ''a//b..'')"
    by simp_all
  note T = capsicum_path_lookup_rejects
  have 1: "\<exists>q\<in>set (hook_names ''a/../b''). capsicum_path_lookup ex_state q = Inl ECAPMODE"
    using T [OF z(1), of ex_state] m(1) c(1) by blast
  have 2: "\<exists>q\<in>set (hook_names ''/etc/passwd''). capsicum_path_lookup ex_state q = Inl ECAPMODE"
    using T [OF z(2), of ex_state] m(1) by blast
  have 3: "\<not> (\<exists>q\<in>set (hook_names ''a//b..''). capsicum_path_lookup ex_state q = Inl ECAPMODE)"
    using T [OF z(3), of ex_state] c(2) by simp
  have 4: "\<not> (\<exists>q\<in>set (hook_names ''a/../b'').
        capsicum_path_lookup (ex_state\<lparr>tif_seccomp := False\<rparr>) q = Inl ECAPMODE)"
    using T [OF z(1), of "ex_state\<lparr>tif_seccomp := False\<rparr>"] m(2) by simp
  have 5: "hook_names ''a/../b'' = [''a/../b'', ''../b'', ''b'']"
    by (simp add: hook_names_def)
  have 6: "capsicum_path_lookup ex_state ''a/../b'' = Inr ()"
    "capsicum_path_lookup ex_state ''../b'' = Inl ECAPMODE"
    by (simp_all add: capsicum_path_lookup_def char_at_def m)
  from 1 2 3 4 5 6 show ?thesis by blast
qed

section \<open>\<^verbatim>\<open>cap_new\<close> (C4)\<close>

lemma deref_Ptr: "deref h (Ptr a) = Some f \<longleftrightarrow> a < length h \<and> h ! a = f"
  by (auto simp: deref_def)

lemma nth_snoc_at: "length xs = n \<Longrightarrow> (xs @ [x]) ! n = x"
  by auto

lemma update_snoc_at: "length xs = n \<Longrightarrow> (xs @ [x])[n := y] = xs @ [y]"
  by auto

text \<open>
  C4. \<open>orig_fd\<close> resolves to a file \<open>f\<close>; \<open>t\<close> is the file a wrapper will point
  at: the underlying file of \<open>f\<close> when \<open>f\<close> is a capability, \<open>f\<close> itself
  otherwise. When the subsystem is enabled, the target is an ordinary file that is
  still referenced and the host hands out a descriptor and the memory, \<open>cap_new\<close>
  returns the new descriptor, and that descriptor names a new capability for the
  target whose rights are \<open>new_rights AND rights(f)\<close>, with all ones as the rights
  of a file that is not a capability. The new rights are within the requested
  ones and within the existing ones, and they are the requested ones when those
  are within the existing ones.
\<close>

theorem sys_cap_new_rights:
  assumes "capsicum_enabled s"
    and "fdtable s orig_fd = Some a"
    and "deref (heap s) (Ptr a) = Some f"
    and "if capsicum_is_cap f then \<exists>cap. private_data f = Some cap \<and> underlying cap = Ptr t
         else t = a"
    and "deref (heap s) (Ptr t) = Some g"
    and "\<not> capsicum_is_cap g"
    and "f_count g \<noteq> 0"
    and "get_unused_fd_res env = Inr nfd"
    and "kzalloc_ok env"
    and "anon_inode_err env = None"
  shows "\<exists>s' r'. sys_cap_new env s orig_fd new_rights = Ret (Inr nfd, s') \<and>
           fdtable s' nfd = Some (length (heap s)) \<and>
           deref (heap s') (Ptr (length (heap s))) =
             Some \<lparr>f_op = capsicum_file_ops,
                   private_data = Some \<lparr>rights = r', underlying = Ptr t\<rparr>, f_count = 1\<rparr> \<and>
           r' = new_rights AND actual_rights_of f \<and>
           r' AND new_rights = r' \<and> r' AND actual_rights_of f = r' \<and>
           (if new_rights AND actual_rights_of f = new_rights then r' = new_rights
            else r' \<noteq> new_rights)"
proof -
  let ?n = "length (heap s)"
  let ?r = "new_rights AND actual_rights_of f"
  from assms(3) have a: "a < ?n" "heap s ! a = f" by (simp_all add: deref_Ptr)
  from assms(5) have t: "t < ?n" "heap s ! t = g" by (simp_all add: deref_Ptr)
  have unwrap: "(if capsicum_is_cap f then capsicum_unwrap (heap s) (Ptr a) else Ret (Ptr a, None)) =
      Ret (Ptr t, if capsicum_is_cap f then Some (actual_rights_of f) else None)"
    using assms(3,4) by (auto simp: capsicum_unwrap_def actual_rights_of_def)
  have ex: "(case (if capsicum_is_cap f then Some (actual_rights_of f) else None) of
               None \<Rightarrow> - 1 | Some v \<Rightarrow> v) = actual_rights_of f"
    by (simp add: actual_rights_of_def)
  let ?h1 = "(heap s)[t := g\<lparr>f_count := f_count g + 1\<rparr>]"
  have inc: "inc_not_zero (heap s) (Ptr t) = Ret (Some ?h1)"
    using assms(5,7) by (simp add: inc_not_zero_def get_file_def)
  let ?new = "\<lparr>f_op = capsicum_file_ops,
                private_data = Some \<lparr>rights = 0, underlying = NULL\<rparr>, f_count = 1\<rparr>"
  have alloc: "capsicum_cap_alloc env ?h1 = (Ptr ?n, ?h1 @ [?new])"
    using assms(9,10) by (simp add: capsicum_cap_alloc_def)
  let ?g2 = "g\<lparr>f_count := f_count g + 2\<rparr>"
  let ?h3 = "(heap s)[t := ?g2] @
      [\<lparr>f_op = capsicum_file_ops,
        private_data = Some \<lparr>rights = ?r, underlying = Ptr t\<rparr>, f_count = 1\<rparr>]"
  let ?s3 = "s\<lparr>heap := ?h3\<rparr>"
  have d1: "deref (?h1 @ [?new]) (Ptr t) = Some (g\<lparr>f_count := f_count g + 1\<rparr>)"
    using t by (simp add: deref_def nth_append)
  have gf: "get_file (?h1 @ [?new]) (Ptr t) = Ret ((heap s)[t := ?g2] @ [?new])"
    using t d1 by (simp add: get_file_def list_update_append)
  have set: "capsicum_cap_set ((heap s)[t := ?g2] @ [?new]) (Ptr ?n) (Ptr t) ?r = Ret ?h3"
    by (simp add: capsicum_cap_set_def capsicum_is_cap_def nth_snoc_at update_snoc_at)
  have inst: "fd_install ?s3 nfd (Ptr ?n) = Ret (?s3\<lparr>fdtable := (fdtable s)(nfd \<mapsto> ?n)\<rparr>)"
    by (simp add: fd_install_def capsicum_file_install_def deref_def capsicum_is_cap_def
        nth_snoc_at)
  have "capsicum_install_fd env (s\<lparr>heap := ?h1\<rparr>) (Ptr t) ?r =
          Ret (Inr nfd, ?s3\<lparr>fdtable := (fdtable s)(nfd \<mapsto> ?n)\<rparr>)"
    using assms(6,8) alloc d1 gf set inst by (simp add: capsicum_install_fd_def capsicum_is_cap_def)
  then have "sys_cap_new env s orig_fd new_rights =
          Ret (Inr nfd, ?s3\<lparr>fdtable := (fdtable s)(nfd \<mapsto> ?n)\<rparr>)"
    using assms(1,2,3) unwrap ex inc
    by (simp add: sys_cap_new_def do_sys_cap_new_def fcheck_def)
  moreover have "deref (heap (?s3\<lparr>fdtable := (fdtable s)(nfd \<mapsto> ?n)\<rparr>)) (Ptr ?n) =
      Some \<lparr>f_op = capsicum_file_ops,
            private_data = Some \<lparr>rights = ?r, underlying = Ptr t\<rparr>, f_count = 1\<rparr>"
    by (simp add: deref_def nth_snoc_at)
  moreover have "?r AND new_rights = ?r" "?r AND actual_rights_of f = ?r"
    by (simp_all add: and.assoc and.left_commute and.commute)
  ultimately show ?thesis
    by (intro exI [of _ "?s3\<lparr>fdtable := (fdtable s)(nfd \<mapsto> ?n)\<rparr>"] exI [of _ ?r]) simp
qed

theorem sys_cap_new_rights_witness:
  "(\<exists>s'. sys_cap_new ex_host ex_state 4 3 = Ret (Inr 5, s') \<and>
         fdtable s' 5 = Some 5 \<and>
         deref (heap s') (Ptr 5) =
           Some \<lparr>f_op = capsicum_file_ops,
                 private_data = Some \<lparr>rights = 1, underlying = Ptr 0\<rparr>, f_count = 1\<rparr>) \<and>
   (\<exists>s'. sys_cap_new ex_host ex_state 3 6 = Ret (Inr 5, s') \<and>
         fdtable s' 5 = Some 5 \<and>
         deref (heap s') (Ptr 5) =
           Some \<lparr>f_op = capsicum_file_ops,
                 private_data = Some \<lparr>rights = 6, underlying = Ptr 0\<rparr>, f_count = 1\<rparr>)"
proof -
  let ?f0 = "\<lparr>f_op = other_file_ops, private_data = None, f_count = 2\<rparr>"
  let ?f1 = "\<lparr>f_op = capsicum_file_ops,
               private_data = Some \<lparr>rights = 1, underlying = Ptr 0\<rparr>, f_count = 1\<rparr>"
  have 1: "capsicum_enabled ex_state" "fdtable ex_state 4 = Some 1" "fdtable ex_state 3 = Some 0"
    by (simp_all add: ex_state_def ex_fdtable_def)
  have 2: "deref (heap ex_state) (Ptr 1) = Some ?f1" "deref (heap ex_state) (Ptr 0) = Some ?f0"
    by (simp_all add: ex_state_def ex_heap_def deref_def)
  have 3: "if capsicum_is_cap ?f1
           then \<exists>cap. private_data ?f1 = Some cap \<and> underlying cap = Ptr 0 else 0 = (1::nat)"
    "if capsicum_is_cap ?f0
           then \<exists>cap. private_data ?f0 = Some cap \<and> underlying cap = Ptr 0 else 0 = (0::nat)"
    by (simp_all add: capsicum_is_cap_def)
  have 4: "\<not> capsicum_is_cap ?f0" "f_count ?f0 \<noteq> 0"
    by (simp_all add: capsicum_is_cap_def)
  have 5: "get_unused_fd_res ex_host = Inr 5" "kzalloc_ok ex_host" "anon_inode_err ex_host = None"
    by (simp_all add: ex_host_def)
  have 6: "length (heap ex_state) = 5" "(3::u64) AND actual_rights_of ?f1 = 1"
    "(6::u64) AND actual_rights_of ?f0 = 6"
    by (simp_all add: ex_state_def ex_heap_def actual_rights_of_def capsicum_is_cap_def)
  from sys_cap_new_rights [OF 1(1) 1(2) 2(1) 3(1) 2(2) 4(1) 4(2) 5(1) 5(2) 5(3), of 3]
  have a: "\<exists>s'. sys_cap_new ex_host ex_state 4 3 = Ret (Inr 5, s') \<and>
         fdtable s' 5 = Some 5 \<and>
         deref (heap s') (Ptr 5) =
           Some \<lparr>f_op = capsicum_file_ops,
                 private_data = Some \<lparr>rights = 1, underlying = Ptr 0\<rparr>, f_count = 1\<rparr>"
    unfolding 6 by blast
  from sys_cap_new_rights [OF 1(1) 1(3) 2(2) 3(2) 2(2) 4(1) 4(2) 5(1) 5(2) 5(3), of 6]
  have b: "\<exists>s'. sys_cap_new ex_host ex_state 3 6 = Ret (Inr 5, s') \<and>
         fdtable s' 5 = Some 5 \<and>
         deref (heap s') (Ptr 5) =
           Some \<lparr>f_op = capsicum_file_ops,
                 private_data = Some \<lparr>rights = 6, underlying = Ptr 0\<rparr>, f_count = 1\<rparr>"
    unfolding 6 by blast
  from a b show ?thesis by simp
qed

section \<open>\<^verbatim>\<open>cap_getrights\<close> (C9)\<close>

text \<open>
  C9. \<^verbatim>\<open>cap_getrights\<close> on the capability at descriptor 4, with a user pointer that
  faults: the result of \<^verbatim>\<open>put_user\<close> is dropped, so the call returns 0 and
  nothing is stored, where the claim asks for \<open>EFAULT\<close>.
\<close>

theorem sys_cap_getrights_ignores_fault:
  "sys_cap_getrights (ex_host\<lparr>put_user_ok := False\<rparr>) ex_state 4 = Ret (Inr (), None)"
  by (simp add: sys_cap_getrights_def fcheck_def ex_state_def ex_fdtable_def deref_def
      ex_heap_def capsicum_is_cap_def capsicum_unwrap_def ex_host_def)

text \<open>No path of \<^verbatim>\<open>cap_getrights\<close> returns \<open>EFAULT\<close>.\<close>

lemma sys_cap_getrights_never_EFAULT:
  "sys_cap_getrights env s fd \<noteq> Ret (Inl EFAULT, m)"
  by (auto simp: sys_cap_getrights_def Let_def split: option.splits outcome.splits)

text \<open>The other three outcomes of \<^verbatim>\<open>cap_getrights\<close> are as documented.\<close>

lemma sys_cap_getrights_other_cases:
  "(fdtable s fd = None \<longrightarrow> sys_cap_getrights env s fd = Ret (Inl EBADF, None)) \<and>
   (fdtable s fd = Some a \<and> deref (heap s) (Ptr a) = Some f \<and> \<not> capsicum_is_cap f \<longrightarrow>
      sys_cap_getrights env s fd = Ret (Inl EINVAL, None)) \<and>
   (fdtable s fd = Some a \<and> deref (heap s) (Ptr a) = Some f \<and> capsicum_is_cap f \<and>
    private_data f = Some cap \<and> put_user_ok env \<longrightarrow>
      sys_cap_getrights env s fd = Ret (Inr (), Some (rights cap)))"
  by (simp add: sys_cap_getrights_def fcheck_def capsicum_unwrap_def)

section \<open>The operations table of a capability (C8)\<close>

lemma capsicum_file_ops_member_panic:
  "capsicum_file_ops_member opn = panic_ptr \<longleftrightarrow>
     opn \<noteq> flush_op \<and> opn \<noteq> release_op \<and> opn \<noteq> show_fdinfo_op"
  by (cases opn) simp_all

text \<open>
  C8, as the code has it. Every member of the operations table of a capability
  other than \<open>flush\<close>, \<open>release\<close> and \<open>show_fdinfo\<close> panics when it is called on a
  wrapper. \<open>flush\<close> is a null member and is not called. \<open>release\<close> on a wrapper of
  a referenced file returns 0 and drops one reference of the underlying file.
  \<open>show_fdinfo\<close> returns 0 after printing the rights of the wrapper, and leaves the
  file objects as they were.
\<close>

theorem capsicum_file_ops_fatal_but_three:
  "(opn \<noteq> flush_op \<and> opn \<noteq> release_op \<and> opn \<noteq> show_fdinfo_op \<longrightarrow>
      call_file_op h opn capf = Halt PANIC) \<and>
   call_file_op h flush_op capf = Ret (Not_called, h) \<and>
   (deref h capf = Some f \<and> capsicum_is_cap f \<and> private_data f = Some cap \<longrightarrow>
      call_file_op h show_fdinfo_op capf = Ret (Returned (Inr ()) [rights cap], h)) \<and>
   (deref h capf = Some f \<and> capsicum_is_cap f \<and> private_data f = Some cap \<and>
    underlying cap = Ptr u \<and> deref h (Ptr u) = Some g \<and> \<not> capsicum_is_cap g \<and> 0 < f_count g \<longrightarrow>
      (\<exists>h'. call_file_op h release_op capf = Ret (Returned (Inr ()) [], h') \<and>
            length h' = length h \<and>
            deref h' (Ptr u) = Some (g\<lparr>f_count := f_count g - 1\<rparr>) \<and>
            f_count (h' ! u) + 1 = f_count g))"
proof (intro conjI impI)
  assume "opn \<noteq> flush_op \<and> opn \<noteq> release_op \<and> opn \<noteq> show_fdinfo_op"
  then have "capsicum_file_ops_member opn = panic_ptr"
    by (simp add: capsicum_file_ops_member_panic)
  then show "call_file_op h opn capf = Halt PANIC"
    by (simp add: call_file_op_def)
next
  show "call_file_op h flush_op capf = Ret (Not_called, h)"
    by (simp add: call_file_op_def)
next
  assume "deref h capf = Some f \<and> capsicum_is_cap f \<and> private_data f = Some cap"
  then show "call_file_op h show_fdinfo_op capf = Ret (Returned (Inr ()) [rights cap], h)"
    by (simp add: call_file_op_def capsicum_show_fdinfo_def)
next
  assume a: "deref h capf = Some f \<and> capsicum_is_cap f \<and> private_data f = Some cap \<and>
    underlying cap = Ptr u \<and> deref h (Ptr u) = Some g \<and> \<not> capsicum_is_cap g \<and> 0 < f_count g"
  then obtain c where c: "capf = Ptr c" "c < length h" "h ! c = f"
    by (cases capf) (auto simp: deref_def split: if_splits)
  from a have u: "u < length h" "h ! u = g"
    by (simp_all add: deref_Ptr)
  from a c u have ne: "c \<noteq> u" by auto
  let ?h1 = "h[u := g\<lparr>f_count := f_count g - 1\<rparr>]"
  let ?h' = "?h1[c := (?h1 ! c)\<lparr>private_data := None\<rparr>]"
  have "fput h (Ptr u) = Ret ?h1"
    using a by (simp add: fput_def)
  then have "capsicum_release h capf = Ret (Inr (), ?h')"
    using a c by (simp add: capsicum_release_def)
  then have "call_file_op h release_op capf = Ret (Returned (Inr ()) [], ?h')"
    by (simp add: call_file_op_def)
  moreover have "deref ?h' (Ptr u) = Some (g\<lparr>f_count := f_count g - 1\<rparr>)"
    using u ne by (simp add: deref_def)
  moreover have "f_count (?h' ! u) + 1 = f_count g"
    using u ne a by simp
  ultimately show "\<exists>h'. call_file_op h release_op capf = Ret (Returned (Inr ()) [], h') \<and>
            length h' = length h \<and>
            deref h' (Ptr u) = Some (g\<lparr>f_count := f_count g - 1\<rparr>) \<and>
            f_count (h' ! u) + 1 = f_count g"
    by (intro exI [of _ ?h']) simp
qed

theorem capsicum_file_ops_fatal_but_three_witness:
  "call_file_op ex_heap read_op (Ptr 1) = Halt PANIC \<and>
   call_file_op ex_heap mmap_op (Ptr 1) = Halt PANIC \<and>
   call_file_op ex_heap show_fdinfo_op (Ptr 1) = Ret (Returned (Inr ()) [1], ex_heap) \<and>
   (\<exists>h'. call_file_op ex_heap release_op (Ptr 1) = Ret (Returned (Inr ()) [], h') \<and>
         f_count (h' ! 0) = 1)"
proof -
  let ?f0 = "\<lparr>f_op = other_file_ops, private_data = None, f_count = 2\<rparr>"
  let ?c1 = "\<lparr>rights = 1, underlying = Ptr 0\<rparr>"
  let ?f1 = "\<lparr>f_op = capsicum_file_ops, private_data = Some ?c1, f_count = 1\<rparr>"
  have d: "deref ex_heap (Ptr 1) = Some ?f1 \<and> capsicum_is_cap ?f1 \<and> private_data ?f1 = Some ?c1"
    by (simp add: ex_heap_def deref_def capsicum_is_cap_def)
  have r: "deref ex_heap (Ptr 1) = Some ?f1 \<and> capsicum_is_cap ?f1 \<and> private_data ?f1 = Some ?c1 \<and>
    underlying ?c1 = Ptr 0 \<and> deref ex_heap (Ptr 0) = Some ?f0 \<and> \<not> capsicum_is_cap ?f0 \<and>
    0 < f_count ?f0"
    by (simp add: ex_heap_def deref_def capsicum_is_cap_def)
  note T = capsicum_file_ops_fatal_but_three
  have 1: "call_file_op ex_heap read_op (Ptr 1) = Halt PANIC"
    using T [of read_op ex_heap "Ptr 1"] by simp
  have 2: "call_file_op ex_heap mmap_op (Ptr 1) = Halt PANIC"
    using T [of mmap_op ex_heap "Ptr 1"] by simp
  have 3: "call_file_op ex_heap show_fdinfo_op (Ptr 1) = Ret (Returned (Inr ()) [1], ex_heap)"
    using T [of read_op ex_heap "Ptr 1" ?f1 ?c1] d by simp
  have 4: "\<exists>h'. call_file_op ex_heap release_op (Ptr 1) = Ret (Returned (Inr ()) [], h') \<and>
         f_count (h' ! 0) = 1"
    using T [of read_op ex_heap "Ptr 1" ?f1 ?c1 0 ?f0] r by auto
  show ?thesis using 1 2 3 4 by simp
qed

text \<open>
  \<open>show_fdinfo\<close> is a member of the table that is called on a wrapper and returns:
  release is not the only operation a wrapper permits.
\<close>

theorem capsicum_show_fdinfo_not_fatal:
  "call_file_op ex_heap show_fdinfo_op (Ptr 1) = Ret (Returned (Inr ()) [1], ex_heap)"
  by (simp add: call_file_op_def capsicum_show_fdinfo_def deref_def ex_heap_def
      capsicum_is_cap_def)

section \<open>Frame properties of the interceptor\<close>

lemma capsicum_require_rights_frame:
  assumes "capsicum_require_rights s p fd req = Ret (res, p')"
  shows "next_new_cap p' = next_new_cap p \<and> new_cap_rights p' = new_cap_rights p \<and>
         task p' = task p \<and> fd_count p' = fd_count p \<and>
         length (files p') = length (files p) \<and> length (fds p') = length (fds p) \<and>
         next_free p \<le> next_free p' \<and>
         (0 < next_free p \<longrightarrow> files p' ! 0 = files p ! 0)"
  using assms
  by (auto simp: capsicum_require_rights_def Let_def
      split: if_splits outcome.splits prod.splits option.splits)

lemma check_fd_args_frame:
  "check_fd_args s p pairs = Ret (res, p') \<Longrightarrow>
   next_new_cap p' = next_new_cap p \<and> new_cap_rights p' = new_cap_rights p \<and>
   task p' = task p \<and> fd_count p' = fd_count p \<and>
   length (files p') = length (files p) \<and> length (fds p') = length (fds p) \<and>
   next_free p \<le> next_free p' \<and>
   (0 < next_free p \<longrightarrow> files p' ! 0 = files p ! 0)"
proof (induction pairs arbitrary: p)
  case Nil
  then show ?case by simp
next
  case (Cons x pairs)
  obtain fd req where x: "x = (fd, req)" by (cases x)
  from Cons.prems x obtain r1 p1 where
    1: "capsicum_require_rights s p fd req = Ret (r1, p1)"
    by (cases "capsicum_require_rights s p fd req") (auto split: prod.splits)
  note f1 = capsicum_require_rights_frame [OF 1]
  show ?case
  proof (cases r1)
    case (Inl e)
    with Cons.prems x 1 have "p' = p1" by simp
    with f1 show ?thesis by simp
  next
    case (Inr u)
    with Cons.prems x 1 have "check_fd_args s p1 pairs = Ret (res, p')" by simp
    from Cons.IH [OF this] f1 show ?thesis by auto
  qed
qed

lemma capsicum_alloc_pending_syscall_props:
  assumes "capsicum_alloc_pending_syscall env s = (Inr p0, s0)"
    and "\<forall>q. prepare_creds_res env = Some (Some q) \<longrightarrow> slate_wf q"
  shows "heap s0 = heap s \<and> fdtable s0 = fdtable s \<and> current s0 = current s \<and>
         security s0 = Some p0 \<and> task p0 = current s \<and>
         (case capsicum_get_pending_syscall s of
            Some p \<Rightarrow> p0 = p
          | None \<Rightarrow> next_new_cap p0 = NULL \<and> slate_wf p0)"
proof (cases "capsicum_get_pending_syscall s")
  case (Some p)
  with assms(1) have "p0 = p" "s0 = s"
    by (simp_all add: capsicum_alloc_pending_syscall_def)
  moreover from Some have "security s = Some p" "task p = current s"
    by (auto simp: capsicum_get_pending_syscall_def split: option.splits if_splits)
  ultimately show ?thesis using Some by simp
next
  case None
  show ?thesis
  proof (cases "prepare_creds_res env")
    case n: None
    with None assms(1) show ?thesis
      by (simp add: capsicum_alloc_pending_syscall_def)
  next
    case (Some sec)
    show ?thesis
    proof (cases sec)
      case (Some q)
      with \<open>prepare_creds_res env = Some sec\<close> assms(2) have "slate_wf q" by simp
      with None Some \<open>prepare_creds_res env = Some sec\<close> assms(1) show ?thesis
        by (auto simp: capsicum_alloc_pending_syscall_def slate_wf_def Let_def)
    next
      case n: None
      with None \<open>prepare_creds_res env = Some sec\<close> assms(1) show ?thesis
        by (auto simp: capsicum_alloc_pending_syscall_def slate_wf_def Let_def array6_def
            split: option.splits prod.splits)
    qed
  qed
qed

lemma capsicum_require_rights_first:
  assumes "capsicum_require_rights s p fd req = Ret (Inr u, p')"
    and "fdtable s (ucast fd) = Some a"
    and "next_free p = 0"
    and "slate_wf p"
  shows "files p' ! 0 = Ptr a \<and> next_free p' = 1"
proof -
  from assms(1,3) have "0 < fd_count p"
    by (auto simp: capsicum_require_rights_def Let_def
        split: if_splits outcome.splits prod.splits option.splits)
  with assms(4) have "0 < length (files p)"
    by (simp add: slate_wf_def)
  with assms(1,2,3) show ?thesis
    by (auto simp: capsicum_require_rights_def Let_def fcheck_def
        split: if_splits outcome.splits prod.splits option.splits)
qed

section \<open>The reset of the slate at interception (C2)\<close>

lemma ex_intercept_openat:
  "capsicum_intercept_syscall ex_table ex_host ex_state 0 NR_openat [4] =
     Ret (Inr (), ex_state_openat)"
  by (simp add: capsicum_intercept_syscall_def capsicum_alloc_pending_syscall_def
      capsicum_get_pending_syscall_def capsicum_run_syscall_table_def ex_table_def
      capsicum_require_rights_def AT_FDCWD_def fcheck_def capsicum_unwrap_def deref_def
      capsicum_is_cap_def capsicum_cap_alloc_def ex_state_def ex_slate_def ex_heap_def
      ex_fdtable_def ex_host_def ex_state_openat_def Let_def)

lemma ex_intercept_dup:
  "capsicum_intercept_syscall ex_table ex_host ex_state_openat 0 32 [3] =
     Ret (Inr (), ex_state_dup)"
  by (simp add: capsicum_intercept_syscall_def capsicum_alloc_pending_syscall_def
      capsicum_get_pending_syscall_def capsicum_run_syscall_table_def ex_table_def
      capsicum_require_rights_def AT_FDCWD_def fcheck_def capsicum_unwrap_def deref_def
      capsicum_is_cap_def capsicum_cap_alloc_def ex_state_def ex_slate_def ex_heap_def
      ex_fdtable_def ex_host_def ex_state_openat_def ex_state_dup_def NR_openat_def Let_def)

lemma ex_install_dup:
  "capsicum_file_install ex_state_dup (Ptr 0) 5 =
     Ret (Ptr 5, ex_state_dup\<lparr>heap := ex_heap @ [\<lparr>f_op = capsicum_file_ops,
                  private_data = Some \<lparr>rights = 0, underlying = Ptr 0\<rparr>, f_count = 1\<rparr>],
               security := Some (ex_slate\<lparr>fds := [3, 0, 0, 0, 0, 0],
                  files := [Ptr 0, NULL, NULL, NULL, NULL, NULL], next_free := 1,
                  next_new_cap := NULL, new_cap_rights := 0\<rparr>)\<rparr>)"
  by (simp add: capsicum_file_install_def capsicum_get_pending_syscall_def deref_def
      capsicum_is_cap_def capsicum_cap_set_def ex_state_def ex_slate_def ex_heap_def
      ex_state_openat_def ex_state_dup_def)

text \<open>
  After a successful interception of a syscall other than \<^verbatim>\<open>openat\<close>, the slate
  holds 0 in \<open>new_cap_rights\<close>, not the all-ones value that the install hook tests.
\<close>

lemma capsicum_intercept_other_syscall_rights:
  assumes "capsicum_enabled s"
    and "callnr \<noteq> NR_openat"
    and "capsicum_intercept_syscall table env s arch callnr args = Ret (Inr (), s1)"
  shows "\<exists>p. security s1 = Some p \<and> new_cap_rights p = 0"
proof -
  obtain x0 s0 where al: "capsicum_alloc_pending_syscall env s = (x0, s0)"
    by (cases "capsicum_alloc_pending_syscall env s")
  from assms al obtain p0 where x0: "x0 = Inr p0"
    by (cases x0) (simp_all add: capsicum_intercept_syscall_def)
  let ?p1 = "p0\<lparr>next_free := 0, new_cap_rights := 0\<rparr>"
  obtain rp where run: "capsicum_run_syscall_table table s0 ?p1 arch callnr args = Ret rp"
    using assms al x0
    by (cases "capsicum_run_syscall_table table s0 ?p1 arch callnr args")
      (simp_all add: capsicum_intercept_syscall_def Let_def)
  obtain result p2 where rp: "rp = (result, p2)" by (cases rp)
  have s1: "s1 = s0\<lparr>security := Some p2\<rparr>"
    using assms al x0 run rp by (simp add: capsicum_intercept_syscall_def Let_def)
  have "new_cap_rights p2 = new_cap_rights ?p1"
  proof (cases "table arch callnr args")
    case None
    with run rp show ?thesis by (simp add: capsicum_run_syscall_table_def)
  next
    case (Some pairs)
    with run rp have "check_fd_args s0 ?p1 pairs = Ret (result, p2)"
      by (simp add: capsicum_run_syscall_table_def)
    from check_fd_args_frame [OF this] show ?thesis by simp
  qed
  with s1 show ?thesis by simp
qed

text \<open>
  C2. From \<open>ex_state\<close>: \<^verbatim>\<open>openat(4, ...)\<close> is intercepted and pre-allocates the
  wrapper at address 5; the call then fails before it installs a descriptor, so
  the wrapper lingers. The next syscall, \<^verbatim>\<open>dup(3)\<close> on an ordinary file, is
  intercepted: the slate is left with \<open>new_cap_rights = 0\<close>, which is not the
  "no wrap" value, and the lingering wrapper. The install hook then does not
  install the file as it is: it returns the wrapper, made a capability with no
  rights for the file.
\<close>

theorem capsicum_intercept_leaves_zero_rights:
  "capsicum_intercept_syscall ex_table ex_host ex_state 0 NR_openat [4] =
     Ret (Inr (), ex_state_openat) \<and>
   capsicum_intercept_syscall ex_table ex_host ex_state_openat 0 32 [3] =
     Ret (Inr (), ex_state_dup) \<and>
   map_option new_cap_rights (security ex_state_dup) = Some 0 \<and>
   map_option next_new_cap (security ex_state_dup) = Some (Ptr 5) \<and>
   (\<exists>s'. capsicum_file_install ex_state_dup (Ptr 0) 5 = Ret (Ptr 5, s') \<and>
      deref (heap s') (Ptr 5) =
        Some \<lparr>f_op = capsicum_file_ops,
              private_data = Some \<lparr>rights = 0, underlying = Ptr 0\<rparr>, f_count = 1\<rparr>)"
proof -
  have "map_option new_cap_rights (security ex_state_dup) = Some 0"
    "map_option next_new_cap (security ex_state_dup) = Some (Ptr 5)"
    by (simp_all add: ex_state_dup_def)
  moreover have "\<exists>s'. capsicum_file_install ex_state_dup (Ptr 0) 5 = Ret (Ptr 5, s') \<and>
      deref (heap s') (Ptr 5) =
        Some \<lparr>f_op = capsicum_file_ops,
              private_data = Some \<lparr>rights = 0, underlying = Ptr 0\<rparr>, f_count = 1\<rparr>"
    by (simp add: ex_install_dup deref_def ex_heap_def)
  ultimately show ?thesis
    using ex_intercept_openat ex_intercept_dup by simp
qed

section \<open>Descriptors opened below a capability (C3)\<close>

lemma capsicum_intercept_openat_slate:
  assumes en: "capsicum_enabled s"
    and tab: "table arch NR_openat args = Some ((fd0, req0) # rest)"
    and fd: "fdtable s (ucast fd0) = Some a"
    and df: "deref (heap s) (Ptr a) = Some f"
    and cf: "capsicum_is_cap f"
    and pf: "private_data f = Some cap"
    and un: "underlying cap \<noteq> NULL"
    and own: "\<forall>p. capsicum_get_pending_syscall s = Some p \<longrightarrow>
               slate_wf p \<and> wrapper_ready (heap s) (next_new_cap p)"
    and host: "\<forall>q. prepare_creds_res env = Some (Some q) \<longrightarrow> slate_wf q"
    and ok: "capsicum_intercept_syscall table env s arch NR_openat args = Ret (Inr (), s1)"
  shows "\<exists>p w wr. capsicum_get_pending_syscall s1 = Some p \<and> next_new_cap p = Ptr w \<and>
           new_cap_rights p = rights cap \<and> deref (heap s1) (Ptr w) = Some wr \<and>
           is_capability wr \<and>
           (\<forall>x g. deref (heap s) x = Some g \<longrightarrow> deref (heap s1) x = Some g)"
proof -
  obtain x0 s0 where al: "capsicum_alloc_pending_syscall env s = (x0, s0)"
    by (cases "capsicum_alloc_pending_syscall env s")
  from ok en al obtain p0 where x0: "x0 = Inr p0"
    by (cases x0) (simp_all add: capsicum_intercept_syscall_def)
  note A = capsicum_alloc_pending_syscall_props [OF al [unfolded x0] host]
  let ?p1 = "p0\<lparr>next_free := 0, new_cap_rights := 0\<rparr>"
  have wf0: "slate_wf p0" and rdy0: "wrapper_ready (heap s) (next_new_cap p0)"
    using A own by (auto simp: wrapper_ready_def split: option.splits)
  have wf1: "slate_wf ?p1" using wf0 by (simp add: slate_wf_def)
  obtain rp where run: "capsicum_run_syscall_table table s0 ?p1 arch NR_openat args = Ret rp"
    using ok en al x0
    by (cases "capsicum_run_syscall_table table s0 ?p1 arch NR_openat args")
      (simp_all add: capsicum_intercept_syscall_def Let_def)
  obtain result p2 where rp: "rp = (result, p2)" by (cases rp)
  have res: "result = Inr ()"
    using ok en al x0 run rp
    by (auto simp: capsicum_intercept_syscall_def Let_def
        split: if_splits list.splits outcome.splits prod.splits fileptr.splits)
  have chk: "check_fd_args s0 ?p1 ((fd0, req0) # rest) = Ret (Inr (), p2)"
    using run rp res tab by (simp add: capsicum_run_syscall_table_def)
  then obtain r1 pa where
    rr: "capsicum_require_rights s0 ?p1 fd0 req0 = Ret (r1, pa)"
    by (cases "capsicum_require_rights s0 ?p1 fd0 req0") (auto split: prod.splits)
  with chk obtain u where r1: "r1 = Inr u" and rest: "check_fd_args s0 pa rest = Ret (Inr (), p2)"
    by (cases r1) simp_all
  have fd0: "fdtable s0 (ucast fd0) = Some a" using A fd by simp
  have first: "files pa ! 0 = Ptr a \<and> next_free pa = 1"
    using capsicum_require_rights_first [OF rr [unfolded r1] fd0 _ wf1] by simp
  note Fa = capsicum_require_rights_frame [OF rr]
  note F2 = check_fd_args_frame [OF rest]
  have len: "0 < length (files p2)"
    using rr r1 wf1 Fa F2
    by (auto simp: capsicum_require_rights_def Let_def slate_wf_def
        split: if_splits outcome.splits prod.splits option.splits)
  have f20: "files p2 ! 0 = Ptr a" using first F2 by simp
  from len f20 obtain tl where files2: "files p2 = Ptr a # tl"
    by (cases "files p2") simp_all
  have nn: "next_new_cap p2 = next_new_cap p0" and tk: "task p2 = current s"
    using Fa F2 A by simp_all
  have unw: "capsicum_unwrap (heap s0) (Ptr a) = Ret (underlying cap, Some (rights cap))"
    using A df cf pf by (simp add: capsicum_unwrap_def)
  show ?thesis
  proof (cases "next_new_cap p0 = NULL")
    case True
    obtain capf h' where ca: "capsicum_cap_alloc env (heap s0) = (capf, h')"
      by (cases "capsicum_cap_alloc env (heap s0)")
    have body: "capsicum_intercept_syscall table env s arch NR_openat args =
        (case (capf, h') of
           (ERR_PTR e, h') \<Rightarrow>
             Ret (Inl e, s0\<lparr>heap := h', security := Some (p2\<lparr>next_new_cap := ERR_PTR e\<rparr>)\<rparr>)
         | (capf, h') \<Rightarrow>
             Ret (Inr (), s0\<lparr>heap := h', security := Some (p2\<lparr>next_new_cap := capf,
                    new_cap_rights := rights cap\<rparr>)\<rparr>))"
      using en al x0 run rp res files2 unw un nn True ca
      by (simp add: capsicum_intercept_syscall_def Let_def split: fileptr.splits)
    from ca have alloc_cases:
      "(\<exists>e. capf = ERR_PTR e) \<or>
       (capf = Ptr (length (heap s0)) \<and>
        h' = heap s0 @ [\<lparr>f_op = capsicum_file_ops,
               private_data = Some \<lparr>rights = 0, underlying = NULL\<rparr>, f_count = 1\<rparr>])"
      by (auto simp: capsicum_cap_alloc_def split: if_splits option.splits)
    with ok body have capf: "capf = Ptr (length (heap s0))"
      and h': "h' = heap s0 @ [\<lparr>f_op = capsicum_file_ops,
               private_data = Some \<lparr>rights = 0, underlying = NULL\<rparr>, f_count = 1\<rparr>]"
      by auto
    from ok body capf have s1: "s1 = s0\<lparr>heap := h', security := Some (p2\<lparr>next_new_cap := capf,
                    new_cap_rights := rights cap\<rparr>)\<rparr>"
      by simp
    let ?p = "p2\<lparr>next_new_cap := capf, new_cap_rights := rights cap\<rparr>"
    let ?wf = "\<lparr>f_op = capsicum_file_ops,
               private_data = Some \<lparr>rights = 0, underlying = NULL\<rparr>, f_count = 1\<rparr>"
    have "capsicum_get_pending_syscall s1 = Some ?p"
      using s1 tk A by (simp add: capsicum_get_pending_syscall_def)
    moreover have "deref (heap s1) (Ptr (length (heap s0))) = Some ?wf"
      using s1 h' by (simp add: deref_def)
    moreover have "is_capability ?wf"
      by (simp add: is_capability_def capsicum_is_cap_def)
    moreover have "\<forall>x g. deref (heap s) x = Some g \<longrightarrow> deref (heap s1) x = Some g"
      using s1 h' A by (auto simp: deref_def nth_append split: fileptr.splits if_splits)
    ultimately show ?thesis using capf by auto
  next
    case False
    have s1: "s1 = s0\<lparr>security := Some (p2\<lparr>new_cap_rights := rights cap\<rparr>)\<rparr>"
      using ok en al x0 run rp res files2 unw un nn False
      by (simp add: capsicum_intercept_syscall_def Let_def)
    from False A have own_slate: "capsicum_get_pending_syscall s = Some p0"
      by (cases "capsicum_get_pending_syscall s") auto
    from False rdy0 obtain wr where wr: "deref (heap s) (next_new_cap p0) = Some wr" "is_capability wr"
      by (auto simp: wrapper_ready_def split: option.splits)
    then obtain w where w: "next_new_cap p0 = Ptr w"
      by (cases "next_new_cap p0") (simp_all add: deref_def)
    let ?p = "p2\<lparr>new_cap_rights := rights cap\<rparr>"
    have "capsicum_get_pending_syscall s1 = Some ?p"
      using s1 tk A by (simp add: capsicum_get_pending_syscall_def)
    moreover have "next_new_cap ?p = Ptr w" using nn w by simp
    moreover have "deref (heap s1) (Ptr w) = Some wr" using s1 A wr w by simp
    moreover have "\<forall>x g. deref (heap s) x = Some g \<longrightarrow> deref (heap s1) x = Some g"
      using s1 A by simp
    ultimately show ?thesis using wr(2) by auto
  qed
qed

lemma capsicum_file_install_wrap:
  assumes "capsicum_get_pending_syscall s = Some p"
    and "next_new_cap p = Ptr w"
    and "deref (heap s) (Ptr w) = Some wr"
    and "is_capability wr"
    and "deref (heap s) x = Some g"
    and "\<not> capsicum_is_cap g"
  shows "capsicum_file_install s x fd =
           (if new_cap_rights p = - 1 then Ret (x, s)
            else Ret (Ptr w,
                      s\<lparr>heap := (heap s)[w := wr\<lparr>private_data :=
                                     Some \<lparr>rights = new_cap_rights p, underlying = x\<rparr>\<rparr>],
                        security := Some (p\<lparr>next_new_cap := NULL, new_cap_rights := 0\<rparr>)\<rparr>))"
proof -
  from assms(4) obtain c where c: "capsicum_is_cap wr" "private_data wr = Some c"
    by (auto simp: is_capability_def)
  have eq: "c\<lparr>underlying := x, rights := new_cap_rights p\<rparr> =
          \<lparr>rights = new_cap_rights p, underlying = x\<rparr>"
    by (cases c) simp
  from assms(3) have "w < length (heap s)" "heap s ! w = wr"
    by (simp_all add: deref_Ptr)
  then have "capsicum_cap_set (heap s) (Ptr w) x (new_cap_rights p) =
      Ret ((heap s)[w := wr\<lparr>private_data :=
              Some \<lparr>rights = new_cap_rights p, underlying = x\<rparr>\<rparr>])"
    using c by (simp add: capsicum_cap_set_def eq)
  then show ?thesis
    using assms(1,2,5,6) by (simp add: capsicum_file_install_def Let_def)
qed

text \<open>
  C3, as the code has it. The subsystem is enabled, the table gives \<open>openat\<close> a
  first fd argument, that argument resolves to a capability (with its underlying
  file in place) of rights \<open>R\<close>, and the interception succeeds. The slate the
  thread comes with holds in \<open>next_new_cap\<close> the null pointer or a capability
  object ready for use (\<open>wrapper_ready\<close>); what follows from the error pointer
  that a failed pre-allocation leaves in that slot is not part of the statement.
  Then the slate of the thread holds a wrapper in \<open>next_new_cap\<close> (the one that
  lingered, or a new one) and \<open>R\<close> in \<open>new_cap_rights\<close>. When the install hook
  is next given a file that is not a capability:
  \<^item> if \<open>R\<close> is not all ones, the hook returns the wrapper, now a capability for
    that file with rights \<open>R\<close>;
  \<^item> if \<open>R\<close> is all ones, the value that also means "no wrap", the hook returns
    the file as it is and changes nothing.
  The arrays of a slate, the thread's own or one the host hands over with new
  credentials, have the capacity that \<open>fd_count\<close> states (\<open>slate_wf\<close>), as they
  have in C by construction.
\<close>

theorem capsicum_openat_inherits_rights:
  assumes "capsicum_enabled s"
    and "table arch NR_openat args = Some ((fd0, req0) # rest)"
    and "fdtable s (ucast fd0) = Some a"
    and "deref (heap s) (Ptr a) = Some f"
    and "capsicum_is_cap f"
    and "private_data f = Some cap"
    and "underlying cap \<noteq> NULL"
    and "\<forall>p. capsicum_get_pending_syscall s = Some p \<longrightarrow>
           slate_wf p \<and> wrapper_ready (heap s) (next_new_cap p)"
    and "\<forall>q. prepare_creds_res env = Some (Some q) \<longrightarrow> slate_wf q"
    and "capsicum_intercept_syscall table env s arch NR_openat args = Ret (Inr (), s1)"
  shows "\<exists>p w. capsicum_get_pending_syscall s1 = Some p \<and> next_new_cap p = Ptr w \<and>
           new_cap_rights p = rights cap \<and>
           (\<forall>x g fd. deref (heap s1) x = Some g \<and> \<not> capsicum_is_cap g \<longrightarrow>
              (if rights cap = - 1 then capsicum_file_install s1 x fd = Ret (x, s1)
               else \<exists>s2 wr. capsicum_file_install s1 x fd = Ret (Ptr w, s2) \<and>
                      deref (heap s2) (Ptr w) = Some wr \<and> capsicum_is_cap wr \<and>
                      private_data wr = Some \<lparr>rights = rights cap, underlying = x\<rparr>))"
proof -
  from capsicum_intercept_openat_slate [OF assms]
  obtain p w wr where p: "capsicum_get_pending_syscall s1 = Some p" "next_new_cap p = Ptr w"
    "new_cap_rights p = rights cap" "deref (heap s1) (Ptr w) = Some wr" "is_capability wr"
    by blast
  have "capsicum_file_install s1 x fd = Ret (x, s1)"
    if "deref (heap s1) x = Some g" "\<not> capsicum_is_cap g" "rights cap = - 1" for x g fd
    using capsicum_file_install_wrap [OF p(1,2,4,5) that(1,2)] that(3) p(3) by simp
  moreover have "\<exists>s2 wr. capsicum_file_install s1 x fd = Ret (Ptr w, s2) \<and>
                      deref (heap s2) (Ptr w) = Some wr \<and> capsicum_is_cap wr \<and>
                      private_data wr = Some \<lparr>rights = rights cap, underlying = x\<rparr>"
    if "deref (heap s1) x = Some g" "\<not> capsicum_is_cap g" "rights cap \<noteq> - 1" for x g fd
  proof -
    from p(4) have w: "w < length (heap s1)" "heap s1 ! w = wr"
      by (simp_all add: deref_Ptr)
    from p(5) have "capsicum_is_cap wr" by (simp add: is_capability_def)
    then show ?thesis
      using capsicum_file_install_wrap [OF p(1,2,4,5) that(1,2), of fd] that(3) p(3) w
      by (simp add: deref_def capsicum_is_cap_def)
  qed
  ultimately show ?thesis using p(1,2,3) by auto
qed

theorem capsicum_openat_inherits_rights_witness:
  "capsicum_intercept_syscall ex_table ex_host ex_state 0 NR_openat [4] =
     Ret (Inr (), ex_state_openat) \<and>
   (\<exists>s2 wr. capsicum_file_install ex_state_openat (Ptr 2) 5 = Ret (Ptr 5, s2) \<and>
      deref (heap s2) (Ptr 5) = Some wr \<and> capsicum_is_cap wr \<and>
      private_data wr = Some \<lparr>rights = 1, underlying = Ptr 2\<rparr>)"
proof -
  let ?c1 = "\<lparr>rights = 1, underlying = Ptr 0\<rparr>"
  let ?f1 = "\<lparr>f_op = capsicum_file_ops, private_data = Some ?c1, f_count = 1\<rparr>"
  let ?f2 = "\<lparr>f_op = other_file_ops, private_data = None, f_count = 1\<rparr>"
  have 1: "capsicum_enabled ex_state"
    by (simp add: ex_state_def)
  have 2: "ex_table 0 NR_openat [4] = Some ((4, 1) # [])"
    by (simp add: ex_table_def)
  have 3: "fdtable ex_state (ucast (4::u64)) = Some 1"
    by (simp add: ex_state_def ex_fdtable_def)
  have 4: "deref (heap ex_state) (Ptr 1) = Some ?f1"
    by (simp add: ex_state_def ex_heap_def deref_def)
  have 5: "capsicum_is_cap ?f1" "private_data ?f1 = Some ?c1" "underlying ?c1 \<noteq> NULL"
    by (simp_all add: capsicum_is_cap_def)
  have 6: "\<forall>p. capsicum_get_pending_syscall ex_state = Some p \<longrightarrow>
             slate_wf p \<and> wrapper_ready (heap ex_state) (next_new_cap p)"
    by (simp add: ex_lookup_simps ex_slate_def slate_wf_def wrapper_ready_def)
  have 7: "\<forall>q. prepare_creds_res ex_host = Some (Some q) \<longrightarrow> slate_wf q"
    by (simp add: ex_host_def)
  note T = capsicum_openat_inherits_rights [OF 1 2 3 4 5(1) 5(2) 5(3) 6 7 ex_intercept_openat]
  then obtain p w where p: "capsicum_get_pending_syscall ex_state_openat = Some p"
    "next_new_cap p = Ptr w"
    and inst: "\<forall>x g fd. deref (heap ex_state_openat) x = Some g \<and> \<not> capsicum_is_cap g \<longrightarrow>
      (if rights ?c1 = - 1 then capsicum_file_install ex_state_openat x fd = Ret (x, ex_state_openat)
       else \<exists>s2 wr. capsicum_file_install ex_state_openat x fd = Ret (Ptr w, s2) \<and>
              deref (heap s2) (Ptr w) = Some wr \<and> capsicum_is_cap wr \<and>
              private_data wr = Some \<lparr>rights = rights ?c1, underlying = x\<rparr>)"
    by blast
  have "capsicum_get_pending_syscall ex_state_openat =
      Some (ex_slate\<lparr>fds := [4, 0, 0, 0, 0, 0],
                  files := [Ptr 1, NULL, NULL, NULL, NULL, NULL], next_free := 1,
                  next_new_cap := Ptr 5, new_cap_rights := 1\<rparr>)"
    by (simp add: ex_state_openat_def capsicum_get_pending_syscall_def ex_state_def ex_slate_def)
  with p have w: "w = 5" by auto
  have "deref (heap ex_state_openat) (Ptr 2) = Some ?f2 \<and> \<not> capsicum_is_cap ?f2"
    by (simp add: ex_state_openat_def ex_state_def ex_heap_def deref_def capsicum_is_cap_def)
  with inst [rule_format, of "Ptr 2" ?f2 5] w ex_intercept_openat show ?thesis
    by simp
qed

text \<open>
  With a capability of all rights at descriptor 4, the interception of
  \<^verbatim>\<open>openat(4, ...)\<close> succeeds and pre-allocates the wrapper, yet the install hook
  returns the new file itself: the descriptor is not a capability.
\<close>

theorem capsicum_openat_all_rights_not_wrapped:
  "capsicum_intercept_syscall ex_table ex_host ex_allrights_state 0 NR_openat [4] =
     Ret (Inr (), ex_allrights_openat) \<and>
   capsicum_unwrap (heap ex_allrights_state) (fcheck ex_allrights_state 4) =
     Ret (Ptr 0, Some (- 1)) \<and>
   map_option next_new_cap (security ex_allrights_openat) = Some (Ptr 5) \<and>
   map_option new_cap_rights (security ex_allrights_openat) = Some (- 1) \<and>
   capsicum_file_install ex_allrights_openat (Ptr 2) 5 = Ret (Ptr 2, ex_allrights_openat)"
proof -
  have "capsicum_intercept_syscall ex_table ex_host ex_allrights_state 0 NR_openat [4] =
     Ret (Inr (), ex_allrights_openat)"
    by (simp add: capsicum_intercept_syscall_def capsicum_alloc_pending_syscall_def
      capsicum_get_pending_syscall_def capsicum_run_syscall_table_def ex_table_def
      capsicum_require_rights_def AT_FDCWD_def fcheck_def capsicum_unwrap_def deref_def
      capsicum_is_cap_def capsicum_cap_alloc_def ex_state_def ex_slate_def ex_heap_def
      ex_fdtable_def ex_host_def ex_allrights_state_def ex_allrights_openat_def Let_def)
  moreover have "capsicum_unwrap (heap ex_allrights_state) (fcheck ex_allrights_state 4) =
     Ret (Ptr 0, Some (- 1))"
    by (simp add: fcheck_def capsicum_unwrap_def deref_def capsicum_is_cap_def ex_state_def
        ex_heap_def ex_fdtable_def ex_allrights_state_def)
  moreover have "capsicum_file_install ex_allrights_openat (Ptr 2) 5 =
      Ret (Ptr 2, ex_allrights_openat)"
    by (simp add: capsicum_file_install_def capsicum_get_pending_syscall_def deref_def
      capsicum_is_cap_def ex_state_def ex_slate_def ex_heap_def
      ex_allrights_state_def ex_allrights_openat_def)
  moreover have "map_option next_new_cap (security ex_allrights_openat) = Some (Ptr 5)"
    "map_option new_cap_rights (security ex_allrights_openat) = Some (- 1)"
    by (simp_all add: ex_allrights_openat_def)
  ultimately show ?thesis by simp
qed

text \<open>
  The case that the hypothesis on the wrapper slot leaves out. When the
  pre-allocation fails, the interceptor returns the error and leaves the error
  pointer in \<open>next_new_cap\<close>. The next interception of \<^verbatim>\<open>openat(4, ...)\<close> finds
  the slot not null, allocates nothing and succeeds; the install hook then takes
  the error pointer for a wrapper and faults on it.
\<close>

lemma capsicum_failed_prealloc_stays_in_slate:
  "capsicum_intercept_syscall ex_table (ex_host\<lparr>kzalloc_ok := False\<rparr>) ex_state 0 NR_openat [4] =
     Ret (Inl ENOMEM, ex_state_nomem) \<and>
   capsicum_intercept_syscall ex_table ex_host ex_state_nomem 0 NR_openat [4] =
     Ret (Inr (), ex_state_nomem\<lparr>security := Some (ex_slate\<lparr>fds := [4, 0, 0, 0, 0, 0],
                  files := [Ptr 1, NULL, NULL, NULL, NULL, NULL], next_free := 1,
                  next_new_cap := ERR_PTR ENOMEM, new_cap_rights := 1\<rparr>)\<rparr>) \<and>
   capsicum_file_install
     (ex_state_nomem\<lparr>security := Some (ex_slate\<lparr>fds := [4, 0, 0, 0, 0, 0],
                  files := [Ptr 1, NULL, NULL, NULL, NULL, NULL], next_free := 1,
                  next_new_cap := ERR_PTR ENOMEM, new_cap_rights := 1\<rparr>)\<rparr>) (Ptr 2) 5 = Halt OOPS"
proof -
  have "capsicum_intercept_syscall ex_table (ex_host\<lparr>kzalloc_ok := False\<rparr>) ex_state 0
      NR_openat [4] = Ret (Inl ENOMEM, ex_state_nomem)"
    by (simp add: capsicum_intercept_syscall_def capsicum_alloc_pending_syscall_def
      capsicum_get_pending_syscall_def capsicum_run_syscall_table_def ex_table_def
      capsicum_require_rights_def AT_FDCWD_def fcheck_def capsicum_unwrap_def deref_def
      capsicum_is_cap_def capsicum_cap_alloc_def ex_state_def ex_slate_def ex_heap_def
      ex_fdtable_def ex_host_def ex_state_nomem_def Let_def)
  moreover have "capsicum_intercept_syscall ex_table ex_host ex_state_nomem 0 NR_openat [4] =
     Ret (Inr (), ex_state_nomem\<lparr>security := Some (ex_slate\<lparr>fds := [4, 0, 0, 0, 0, 0],
                  files := [Ptr 1, NULL, NULL, NULL, NULL, NULL], next_free := 1,
                  next_new_cap := ERR_PTR ENOMEM, new_cap_rights := 1\<rparr>)\<rparr>)"
    by (simp add: capsicum_intercept_syscall_def capsicum_alloc_pending_syscall_def
      capsicum_get_pending_syscall_def capsicum_run_syscall_table_def ex_table_def
      capsicum_require_rights_def AT_FDCWD_def fcheck_def capsicum_unwrap_def deref_def
      capsicum_is_cap_def capsicum_cap_alloc_def ex_state_def ex_slate_def ex_heap_def
      ex_fdtable_def ex_host_def ex_state_nomem_def Let_def)
  moreover have "capsicum_file_install
     (ex_state_nomem\<lparr>security := Some (ex_slate\<lparr>fds := [4, 0, 0, 0, 0, 0],
                  files := [Ptr 1, NULL, NULL, NULL, NULL, NULL], next_free := 1,
                  next_new_cap := ERR_PTR ENOMEM, new_cap_rights := 1\<rparr>)\<rparr>) (Ptr 2) 5 = Halt OOPS"
    by (simp add: capsicum_file_install_def capsicum_get_pending_syscall_def deref_def
      capsicum_is_cap_def capsicum_cap_set_def ex_state_def ex_slate_def ex_heap_def
      ex_state_nomem_def)
  ultimately show ?thesis by simp
qed

section \<open>Capabilities are flat (C5)\<close>

lemma flat_file_iff:
  "flat_file h f \<longleftrightarrow>
     (\<forall>cap u. capsicum_is_cap f \<and> private_data f = Some cap \<and> underlying cap = Ptr u \<longrightarrow>
        u < length h \<and> \<not> capsicum_is_cap (h ! u))"
proof (cases "capsicum_is_cap f")
  case False
  then show ?thesis by (simp add: flat_file_def)
next
  case True
  show ?thesis
  proof (cases "private_data f")
    case None
    with True show ?thesis by (simp add: flat_file_def)
  next
    case (Some cap)
    show ?thesis
    proof (cases "underlying cap")
      case (Ptr u)
      with True Some show ?thesis by (simp add: flat_file_def deref_def)
    qed (use True Some in \<open>simp_all add: flat_file_def\<close>)
  qed
qed

lemma flat_iff:
  "flat h \<longleftrightarrow>
     (\<forall>a cap u. a < length h \<and> capsicum_is_cap (h ! a) \<and> private_data (h ! a) = Some cap \<and>
        underlying cap = Ptr u \<longrightarrow> u < length h \<and> \<not> capsicum_is_cap (h ! u))"
  unfolding flat_def list_all_length flat_file_iff by blast

lemma flat_update:
  assumes "flat h" and "a < length h" and "f_op g = f_op (h ! a)"
    and "\<forall>cap u. capsicum_is_cap g \<and> private_data g = Some cap \<and> underlying cap = Ptr u \<longrightarrow>
           u < length h \<and> \<not> capsicum_is_cap (h ! u)"
  shows "flat (h[a := g])"
proof -
  have kind: "capsicum_is_cap (h[a := g] ! b) = capsicum_is_cap (h ! b)" if "b < length h" for b
    using that assms(3) by (cases "b = a") (simp_all add: capsicum_is_cap_def)
  show ?thesis
    unfolding flat_iff
  proof (intro allI impI, elim conjE)
    fix b cap u
    assume b: "b < length (h[a := g])" "capsicum_is_cap (h[a := g] ! b)"
      "private_data (h[a := g] ! b) = Some cap" "underlying cap = Ptr u"
    then have bl: "b < length h" by simp
    have "u < length h \<and> \<not> capsicum_is_cap (h ! u)"
    proof (cases "b = a")
      case True
      with b bl have "capsicum_is_cap g" "private_data g = Some cap" by simp_all
      with assms(4) b(4) show ?thesis by blast
    next
      case False
      with b bl have "capsicum_is_cap (h ! b)" "private_data (h ! b) = Some cap" by simp_all
      with assms(1) bl b(4) show ?thesis unfolding flat_iff by blast
    qed
    then show "u < length (h[a := g]) \<and> \<not> capsicum_is_cap (h[a := g] ! u)"
      using kind by simp
  qed
qed

lemma flat_f_count:
  assumes "flat h" and "a < length h"
  shows "flat (h[a := (h ! a)\<lparr>f_count := n\<rparr>])"
proof (rule flat_update [OF assms])
  show "f_op ((h ! a)\<lparr>f_count := n\<rparr>) = f_op (h ! a)" by simp
  show "\<forall>cap u. capsicum_is_cap ((h ! a)\<lparr>f_count := n\<rparr>) \<and>
      private_data ((h ! a)\<lparr>f_count := n\<rparr>) = Some cap \<and> underlying cap = Ptr u \<longrightarrow>
      u < length h \<and> \<not> capsicum_is_cap (h ! u)"
  proof (intro allI impI, elim conjE)
    fix cap u
    assume "capsicum_is_cap ((h ! a)\<lparr>f_count := n\<rparr>)"
      "private_data ((h ! a)\<lparr>f_count := n\<rparr>) = Some cap" "underlying cap = Ptr u"
    then have "capsicum_is_cap (h ! a)" "private_data (h ! a) = Some cap" "underlying cap = Ptr u"
      by (simp_all add: capsicum_is_cap_def)
    with assms show "u < length h \<and> \<not> capsicum_is_cap (h ! u)"
      unfolding flat_iff by blast
  qed
qed

lemma flat_get_file:
  assumes "flat h" and "get_file h p = Ret h'"
  shows "flat h'"
proof -
  from assms(2) obtain a where "p = Ptr a" "a < length h"
    "h' = h[a := (h ! a)\<lparr>f_count := f_count (h ! a) + 1\<rparr>]"
    by (cases p) (auto simp: get_file_def deref_def split: if_splits)
  with flat_f_count [OF assms(1)] show ?thesis by simp
qed

lemma flat_fput:
  assumes "flat h" and "fput h p = Ret h'"
  shows "flat h'"
proof -
  from assms(2) obtain a where "p = Ptr a" "a < length h"
    "h' = h[a := (h ! a)\<lparr>f_count := f_count (h ! a) - 1\<rparr>]"
    by (cases p) (auto simp: fput_def deref_def split: if_splits)
  with flat_f_count [OF assms(1)] show ?thesis by simp
qed

lemma flat_inc_not_zero:
  assumes "flat h" and "inc_not_zero h p = Ret (Some h')"
  shows "flat h'"
proof -
  from assms(2) have "get_file h p = Ret h'"
    by (cases "get_file h p")
      (auto simp: inc_not_zero_def split: option.splits if_splits)
  with flat_get_file [OF assms(1)] show ?thesis by simp
qed

lemma flat_cap_alloc:
  assumes "flat h" and "capsicum_cap_alloc env h = (p, h')"
  shows "flat h'"
proof (cases "h' = h")
  case True
  with assms show ?thesis by simp
next
  case False
  let ?n = "\<lparr>f_op = capsicum_file_ops,
      private_data = Some \<lparr>rights = 0, underlying = NULL\<rparr>, f_count = 1\<rparr>"
  from False assms(2) have h': "h' = h @ [?n]"
    by (cases "anon_inode_err env") (simp_all add: capsicum_cap_alloc_def split: if_splits)
  show ?thesis
    unfolding flat_iff h'
  proof (intro allI impI, elim conjE)
    fix b cap u
    assume b: "b < length (h @ [?n])" "capsicum_is_cap ((h @ [?n]) ! b)"
      "private_data ((h @ [?n]) ! b) = Some cap" "underlying cap = Ptr u"
    have "b \<noteq> length h"
    proof
      assume "b = length h"
      with b(3) have "cap = \<lparr>rights = 0, underlying = NULL\<rparr>" by simp
      with b(4) show False by simp
    qed
    with b(1) have bl: "b < length h" by simp
    with b have "capsicum_is_cap (h ! b)" "private_data (h ! b) = Some cap"
      by (simp_all add: nth_append)
    with assms(1) bl b(4) have "u < length h \<and> \<not> capsicum_is_cap (h ! u)"
      unfolding flat_iff by blast
    then show "u < length (h @ [?n]) \<and> \<not> capsicum_is_cap ((h @ [?n]) ! u)"
      by (simp add: nth_append)
  qed
qed

lemma capsicum_cap_set_Ret:
  assumes "capsicum_cap_set h capf und r = Ret h'"
  shows "\<exists>a cap. capf = Ptr a \<and> a < length h \<and> capsicum_is_cap (h ! a) \<and>
           private_data (h ! a) = Some cap \<and>
           h' = h[a := (h ! a)\<lparr>private_data := Some (cap\<lparr>underlying := und, rights := r\<rparr>)\<rparr>]"
proof (cases capf)
  case (Ptr a)
  show ?thesis
  proof (cases "private_data (h ! a)")
    case None
    with Ptr assms show ?thesis
      by (simp add: capsicum_cap_set_def split: if_splits)
  next
    case (Some cap)
    with Ptr assms show ?thesis
      by (simp add: capsicum_cap_set_def split: if_splits)
  qed
qed (use assms in \<open>simp_all add: capsicum_cap_set_def\<close>)

lemma flat_cap_set:
  assumes "flat h" and "capsicum_cap_set h capf und r = Ret h'"
    and "\<forall>u. und = Ptr u \<longrightarrow> u < length h \<and> \<not> capsicum_is_cap (h ! u)"
  shows "flat h'"
proof -
  from capsicum_cap_set_Ret [OF assms(2)] obtain a cap where a: "a < length h"
    "h' = h[a := (h ! a)\<lparr>private_data := Some (cap\<lparr>underlying := und, rights := r\<rparr>)\<rparr>]"
    by blast
  have "flat (h[a := (h ! a)\<lparr>private_data := Some (cap\<lparr>underlying := und, rights := r\<rparr>)\<rparr>])"
  proof (rule flat_update [OF assms(1) a(1)])
    show "f_op ((h ! a)\<lparr>private_data := Some (cap\<lparr>underlying := und, rights := r\<rparr>)\<rparr>) =
        f_op (h ! a)" by simp
    show "\<forall>c u. capsicum_is_cap ((h ! a)\<lparr>private_data :=
          Some (cap\<lparr>underlying := und, rights := r\<rparr>)\<rparr>) \<and>
        private_data ((h ! a)\<lparr>private_data := Some (cap\<lparr>underlying := und, rights := r\<rparr>)\<rparr>) =
          Some c \<and> underlying c = Ptr u \<longrightarrow> u < length h \<and> \<not> capsicum_is_cap (h ! u)"
      using assms(3) by auto
  qed
  with a(2) show ?thesis by simp
qed

lemma flat_release:
  assumes "flat h" and "capsicum_release h capf = Ret (res, h')"
  shows "flat h'"
proof (cases "deref h capf")
  case None
  with assms(2) show ?thesis by (simp add: capsicum_release_def)
next
  case (Some f)
  show ?thesis
  proof (cases "capsicum_is_cap f")
    case False
    with Some assms show ?thesis by (simp add: capsicum_release_def)
  next
    case True
    from Some obtain a where a: "capf = Ptr a" "a < length h"
      by (cases capf) (simp_all add: deref_def split: if_splits)
    from True Some assms(2) obtain cap where cap: "private_data f = Some cap"
      by (cases "private_data f") (simp_all add: capsicum_release_def)
    let ?m = "if underlying cap \<noteq> NULL then fput h (underlying cap) else Ret h"
    from True Some assms(2) cap a obtain h1 where h1: "?m = Ret h1"
      "h' = h1[a := (h1 ! a)\<lparr>private_data := None\<rparr>]"
      by (cases ?m) (simp_all add: capsicum_release_def)
    have f1: "flat h1"
      using h1(1) assms(1) flat_fput by (auto split: if_splits)
    have len: "length h1 = length h"
      using h1(1) by (cases "underlying cap") (auto simp: fput_def deref_def split: if_splits)
    have "flat (h1[a := (h1 ! a)\<lparr>private_data := None\<rparr>])"
      by (rule flat_update [OF f1]) (simp_all add: len a)
    with h1(2) show ?thesis by simp
  qed
qed

lemma flat_file_install:
  assumes "flat (heap s)" and "capsicum_file_install s x fd = Ret (y, s')"
  shows "flat (heap s')"
proof (cases "deref (heap s) x")
  case None
  with assms(2) show ?thesis by (simp add: capsicum_file_install_def)
next
  case (Some g)
  show ?thesis
  proof (cases "capsicum_is_cap g \<or> capsicum_get_pending_syscall s = None")
    case True
    with Some assms show ?thesis
      by (cases "capsicum_is_cap g") (auto simp: capsicum_file_install_def)
  next
    case False
    then obtain p where p: "capsicum_get_pending_syscall s = Some p" "\<not> capsicum_is_cap g"
      by auto
    show ?thesis
    proof (cases "new_cap_rights p = - 1 \<or> next_new_cap p = NULL")
      case True
      with Some p assms show ?thesis by (auto simp: capsicum_file_install_def)
    next
      case False
      let ?m = "capsicum_cap_set (heap s) (next_new_cap p) x (new_cap_rights p)"
      from False Some p assms(2) obtain h' where h': "?m = Ret h'" "heap s' = h'"
        by (cases ?m) (auto simp: capsicum_file_install_def Let_def)
      from Some p(2) have "\<forall>u. x = Ptr u \<longrightarrow> u < length (heap s) \<and> \<not> capsicum_is_cap (heap s ! u)"
        by (auto simp: deref_def split: if_splits)
      from flat_cap_set [OF assms(1) h'(1) this] h'(2) show ?thesis by simp
    qed
  qed
qed

lemma flat_fd_install:
  assumes "flat (heap s)" and "fd_install s fd x = Ret s'"
  shows "flat (heap s')"
proof -
  from assms(2) obtain y s1 where "capsicum_file_install s x fd = Ret (y, s1)" "heap s' = heap s1"
    by (cases "capsicum_file_install s x fd")
      (auto simp: fd_install_def split: prod.splits fileptr.splits)
  with flat_file_install [OF assms(1)] show ?thesis by simp
qed

lemma get_file_Ret:
  assumes "get_file h p = Ret h'"
  shows "\<exists>a. p = Ptr a \<and> a < length h \<and> length h' = length h \<and>
           (\<forall>b. capsicum_is_cap (h' ! b) = capsicum_is_cap (h ! b))"
proof -
  from assms obtain a where a: "p = Ptr a" "a < length h"
    "h' = h[a := (h ! a)\<lparr>f_count := f_count (h ! a) + 1\<rparr>]"
    by (cases p) (auto simp: get_file_def deref_def split: if_splits)
  have "capsicum_is_cap (h' ! b) = capsicum_is_cap (h ! b)" for b
    using a by (cases "b = a") (simp_all add: capsicum_is_cap_def)
  with a show ?thesis by simp
qed

lemma flat_install_fd:
  assumes "flat (heap s)" and "capsicum_install_fd env s orig r = Ret (res, s')"
  shows "flat (heap s')"
proof (cases "get_unused_fd_res env")
  case (Inl e)
  with assms show ?thesis by (simp add: capsicum_install_fd_def)
next
  case (Inr fd)
  obtain capf h1 where al: "capsicum_cap_alloc env (heap s) = (capf, h1)"
    by (cases "capsicum_cap_alloc env (heap s)")
  have f1: "flat h1" by (rule flat_cap_alloc [OF assms(1) al])
  show ?thesis
  proof (cases "\<exists>e. capf = ERR_PTR e")
    case True
    with Inr al assms show ?thesis by (auto simp: capsicum_install_fd_def)
  next
    case False
    then have body: "capsicum_install_fd env s orig r =
        (case deref h1 orig of
           None \<Rightarrow> Halt OOPS
         | Some fo \<Rightarrow>
             (case (if capsicum_is_cap fo then capsicum_unwrap h1 orig else Ret (orig, None)) of
                Halt x \<Rightarrow> Halt x
              | Ret (orig', _) \<Rightarrow>
                  (case get_file h1 orig' of
                     Halt x \<Rightarrow> Halt x
                   | Ret h2 \<Rightarrow>
                       (case capsicum_cap_set h2 capf orig' r of
                          Halt x \<Rightarrow> Halt x
                        | Ret h3 \<Rightarrow>
                            (case fd_install (s\<lparr>heap := h3\<rparr>) fd capf of
                               Halt x \<Rightarrow> Halt x
                             | Ret s' \<Rightarrow> Ret (Inr fd, s'))))))"
      using Inr al by (cases capf; clarsimp simp: capsicum_install_fd_def)
    from assms(2) body obtain fo where fo: "deref h1 orig = Some fo"
      by (cases "deref h1 orig") simp_all
    let ?m = "if capsicum_is_cap fo then capsicum_unwrap h1 orig else Ret (orig, None)"
    from assms(2) body fo obtain orig' x where m: "?m = Ret (orig', x)"
      by (cases ?m) auto
    from assms(2) body fo m obtain h2 where h2: "get_file h1 orig' = Ret h2"
      by (cases "get_file h1 orig'") simp_all
    from assms(2) body fo m h2 obtain h3 where h3: "capsicum_cap_set h2 capf orig' r = Ret h3"
      by (cases "capsicum_cap_set h2 capf orig' r") simp_all
    from assms(2) body fo m h2 h3 have inst: "fd_install (s\<lparr>heap := h3\<rparr>) fd capf = Ret s'"
      by (cases "fd_install (s\<lparr>heap := h3\<rparr>) fd capf") simp_all
    from get_file_Ret [OF h2] obtain u where u: "orig' = Ptr u" "u < length h1"
      "length h2 = length h1" "\<forall>b. capsicum_is_cap (h2 ! b) = capsicum_is_cap (h1 ! b)"
      by blast
    have nc: "\<not> capsicum_is_cap (h1 ! u)"
    proof (cases "capsicum_is_cap fo")
      case False
      with m u fo show ?thesis by (simp add: deref_Ptr)
    next
      case True
      from fo obtain a where a: "orig = Ptr a" "a < length h1" "h1 ! a = fo"
        by (cases orig) (simp_all add: deref_def split: if_splits)
      from True m fo obtain cap where "private_data fo = Some cap" "underlying cap = orig'"
        by (cases "private_data fo") (simp_all add: capsicum_unwrap_def)
      with f1 a True u show ?thesis unfolding flat_iff by blast
    qed
    have f2: "flat h2" by (rule flat_get_file [OF f1 h2])
    have "\<forall>v. orig' = Ptr v \<longrightarrow> v < length h2 \<and> \<not> capsicum_is_cap (h2 ! v)"
      using u nc by simp
    from flat_cap_set [OF f2 h3 this] have "flat (heap (s\<lparr>heap := h3\<rparr>))" by simp
    from flat_fd_install [OF this inst] show ?thesis .
  qed
qed

lemma flat_sys_cap_new:
  assumes "flat (heap s)" and "sys_cap_new env s orig_fd new_rights = Ret (res, s')"
  shows "flat (heap s')"
proof (cases "capsicum_enabled s \<and> fcheck s orig_fd \<noteq> NULL")
  case False
  with assms show ?thesis
    by (cases "capsicum_enabled s") (auto simp: sys_cap_new_def do_sys_cap_new_def Let_def)
next
  case True
  let ?x = "fcheck s orig_fd"
  from True assms(2) obtain f where f: "deref (heap s) ?x = Some f"
    by (cases "deref (heap s) ?x") (simp_all add: sys_cap_new_def do_sys_cap_new_def Let_def)
  let ?m = "if capsicum_is_cap f then capsicum_unwrap (heap s) ?x else Ret (?x, None)"
  from True assms(2) f obtain y r where m: "?m = Ret (y, r)"
    by (cases ?m) (auto simp: sys_cap_new_def do_sys_cap_new_def Let_def)
  show ?thesis
  proof (cases "y = NULL")
    case n: True
    with True assms f m show ?thesis
      by (simp add: sys_cap_new_def do_sys_cap_new_def Let_def)
  next
    case n: False
    from True assms(2) f m n obtain o1 where o1: "inc_not_zero (heap s) y = Ret o1"
      by (cases "inc_not_zero (heap s) y")
        (simp_all add: sys_cap_new_def do_sys_cap_new_def Let_def)
    show ?thesis
    proof (cases o1)
      case None
      with True assms f m n o1 show ?thesis
        by (simp add: sys_cap_new_def do_sys_cap_new_def Let_def)
    next
      case (Some h1)
      with True assms(2) f m n o1 have
        "capsicum_install_fd env (s\<lparr>heap := h1\<rparr>) y
           (new_rights AND (case r of None \<Rightarrow> - 1 | Some v \<Rightarrow> v)) = Ret (res, s')"
        by (simp add: sys_cap_new_def do_sys_cap_new_def Let_def)
      moreover have "flat (heap (s\<lparr>heap := h1\<rparr>))"
        using flat_inc_not_zero [OF assms(1)] o1 Some by simp
      ultimately show ?thesis by (rule flat_install_fd [rotated])
    qed
  qed
qed

lemma capsicum_alloc_pending_syscall_heap:
  "capsicum_alloc_pending_syscall env s = (x, s0) \<Longrightarrow> heap s0 = heap s"
  by (auto simp: capsicum_alloc_pending_syscall_def Let_def
      split: option.splits prod.splits)

lemma flat_intercept_syscall:
  assumes "flat (heap s)"
    and "capsicum_intercept_syscall table env s arch callnr args = Ret (res, s')"
  shows "flat (heap s')"
proof (cases "capsicum_enabled s")
  case False
  with assms show ?thesis by (simp add: capsicum_intercept_syscall_def)
next
  case True
  obtain x0 s0 where al: "capsicum_alloc_pending_syscall env s = (x0, s0)"
    by (cases "capsicum_alloc_pending_syscall env s")
  note h0 = capsicum_alloc_pending_syscall_heap [OF al]
  obtain capf h' where ca: "capsicum_cap_alloc env (heap s0) = (capf, h')"
    by (cases "capsicum_cap_alloc env (heap s0)")
  have "heap s' = heap s0 \<or> heap s' = h'"
    using assms(2) True al ca
    by (auto simp: capsicum_intercept_syscall_def Let_def
        split: sum.splits outcome.splits prod.splits if_splits list.splits fileptr.splits)
  moreover have "flat h'"
    using flat_cap_alloc [OF _ ca] assms(1) h0 by simp
  ultimately show ?thesis using assms(1) h0 by auto
qed

text \<open>
  C5. Starting from a state whose capabilities are flat, every state reached by
  \<^verbatim>\<open>cap_new\<close>, by the interception of a syscall (which pre-allocates wrappers),
  by the install hook (which initialises them), alone or within the installation
  of a descriptor, and by the release of a capability has flat capabilities: the underlying file of a capability is
  never a capability, and unwrapping it yields nothing.
\<close>

theorem capsicum_steps_keep_flat:
  assumes "flat (heap s)" and "(capsicum_step table)\<^sup>*\<^sup>* s s'"
  shows "flat (heap s') \<and>
         (\<forall>p f cap u. deref (heap s') p = Some f \<and> capsicum_is_cap f \<and>
            private_data f = Some cap \<and> underlying cap = Ptr u \<longrightarrow>
            capsicum_unwrap (heap s') (Ptr u) = Ret (NULL, None))"
proof -
  have step: "flat (heap b)" if "flat (heap a)" "capsicum_step table a b" for a b
    using that(2,1)
  proof cases
    case (step_cap_new env orig_fd new_rights res)
    with that(1) show ?thesis by (auto dest: flat_sys_cap_new)
  next
    case (step_intercept env arch callnr args res')
    with that(1) show ?thesis by (auto dest: flat_intercept_syscall)
  next
    case (step_file_install x fd y)
    with that(1) show ?thesis by (auto dest: flat_file_install)
  next
    case (step_fd_install fd x)
    with that(1) show ?thesis by (auto dest: flat_fd_install)
  next
    case (step_release capf res'' h')
    with that(1) show ?thesis by (auto dest: flat_release)
  qed
  from assms(2,1) have fl: "flat (heap s')"
    by (induction rule: rtranclp_induct) (auto intro: step)
  have "capsicum_unwrap (heap s') (Ptr u) = Ret (NULL, None)"
    if "deref (heap s') p = Some f" "capsicum_is_cap f" "private_data f = Some cap"
      "underlying cap = Ptr u" for p f cap u
  proof -
    from that(1) obtain a where "p = Ptr a" "a < length (heap s')" "heap s' ! a = f"
      by (cases p) (simp_all add: deref_def split: if_splits)
    with fl that have "u < length (heap s')" "\<not> capsicum_is_cap (heap s' ! u)"
      unfolding flat_iff by blast+
    then show ?thesis by (simp add: capsicum_unwrap_def deref_def)
  qed
  with fl show ?thesis by blast
qed

lemma ex_fd_install:
  "fd_install ex_state_openat 5 (Ptr 2) = Ret ex_state_installed"
  by (simp add: fd_install_def capsicum_file_install_def capsicum_get_pending_syscall_def
      deref_def capsicum_is_cap_def capsicum_cap_set_def ex_state_def ex_slate_def ex_heap_def
      ex_state_openat_def ex_state_installed_def)

theorem capsicum_steps_keep_flat_witness:
  "flat (heap ex_state) \<and>
   (capsicum_step ex_table)\<^sup>*\<^sup>* ex_state ex_state_installed \<and>
   flat (heap ex_state_installed) \<and>
   capsicum_unwrap (heap ex_state_installed) (Ptr 5) = Ret (Ptr 2, Some 1) \<and>
   capsicum_unwrap (heap ex_state_installed) (Ptr 2) = Ret (NULL, None)"
proof -
  have 1: "flat (heap ex_state)"
    by (simp add: flat_def flat_file_def deref_def capsicum_is_cap_def ex_state_def ex_heap_def)
  have "capsicum_step ex_table ex_state ex_state_openat"
    using ex_intercept_openat by (rule step_intercept)
  moreover have "capsicum_step ex_table ex_state_openat ex_state_installed"
    using ex_fd_install by (rule step_fd_install)
  ultimately have 2: "(capsicum_step ex_table)\<^sup>*\<^sup>* ex_state ex_state_installed"
    by (meson rtranclp.rtrancl_into_rtrancl rtranclp.rtrancl_refl)
  let ?w = "\<lparr>f_op = capsicum_file_ops,
              private_data = Some \<lparr>rights = 1, underlying = Ptr 2\<rparr>, f_count = 1\<rparr>"
  have 3: "deref (heap ex_state_installed) (Ptr 5) = Some ?w \<and> capsicum_is_cap ?w \<and>
      private_data ?w = Some \<lparr>rights = 1, underlying = Ptr 2\<rparr> \<and>
      underlying \<lparr>rights = 1, underlying = Ptr 2\<rparr> = Ptr 2"
    by (simp add: ex_state_installed_def ex_heap_def deref_def capsicum_is_cap_def)
  have 4: "capsicum_unwrap (heap ex_state_installed) (Ptr 5) = Ret (Ptr 2, Some 1)"
    by (simp add: capsicum_unwrap_def ex_state_installed_def ex_heap_def deref_def
        capsicum_is_cap_def)
  from capsicum_steps_keep_flat [OF 1 2] 3 4 1 2 show ?thesis
    by blast
qed

end
